theory Spec2Isabelle
  imports Complex_Main "HOL-Library.Word" "HOL-Library.AList"
begin

section \<open>Floating-point values\<close>

text \<open>
  A float64 is a finite value, one of the two infinities, or NaN. On the special values the
  operations follow IEEE 754, as numpy does: NaN propagates and compares false with
  everything, \<open>inf - inf\<close> and \<open>0 * inf\<close> are NaN, the cosine and the sine of an infinity are
  NaN. On finite values the arithmetic is idealised by the reals: no rounding, no overflow
  and one zero. The only division of the module is by \<open>1 + exp(...)\<close>, which is never zero;
  the model gives a division by zero numpy's value.
\<close>

datatype float64 = Finite real | PosInf | NegInf | NaN

instantiation float64 :: "{plus, minus, uminus, times, inverse, ord}"
begin

fun plus_float64 :: "float64 \<Rightarrow> float64 \<Rightarrow> float64" where
  "plus_float64 NaN y = NaN"
| "plus_float64 x NaN = NaN"
| "plus_float64 (Finite a) (Finite b) = Finite (a + b)"
| "plus_float64 PosInf NegInf = NaN"
| "plus_float64 NegInf PosInf = NaN"
| "plus_float64 PosInf y = PosInf"
| "plus_float64 x PosInf = PosInf"
| "plus_float64 NegInf y = NegInf"
| "plus_float64 x NegInf = NegInf"

fun uminus_float64 :: "float64 \<Rightarrow> float64" where
  "uminus_float64 (Finite a) = Finite (- a)"
| "uminus_float64 PosInf = NegInf"
| "uminus_float64 NegInf = PosInf"
| "uminus_float64 NaN = NaN"

definition minus_float64 :: "float64 \<Rightarrow> float64 \<Rightarrow> float64" where
  "minus_float64 x y = x + (- y)"

fun times_float64 :: "float64 \<Rightarrow> float64 \<Rightarrow> float64" where
  "times_float64 NaN y = NaN"
| "times_float64 x NaN = NaN"
| "times_float64 (Finite a) (Finite b) = Finite (a * b)"
| "times_float64 (Finite a) PosInf = (if a = 0 then NaN else if 0 < a then PosInf else NegInf)"
| "times_float64 (Finite a) NegInf = (if a = 0 then NaN else if 0 < a then NegInf else PosInf)"
| "times_float64 PosInf (Finite b) = (if b = 0 then NaN else if 0 < b then PosInf else NegInf)"
| "times_float64 NegInf (Finite b) = (if b = 0 then NaN else if 0 < b then NegInf else PosInf)"
| "times_float64 PosInf PosInf = PosInf"
| "times_float64 NegInf NegInf = PosInf"
| "times_float64 PosInf NegInf = NegInf"
| "times_float64 NegInf PosInf = NegInf"

fun divide_float64 :: "float64 \<Rightarrow> float64 \<Rightarrow> float64" where
  "divide_float64 NaN y = NaN"
| "divide_float64 x NaN = NaN"
| "divide_float64 (Finite a) (Finite b) =
     (if b = 0 then (if a = 0 then NaN else if 0 < a then PosInf else NegInf)
      else Finite (a / b))"
| "divide_float64 (Finite a) PosInf = Finite 0"
| "divide_float64 (Finite a) NegInf = Finite 0"
| "divide_float64 PosInf (Finite b) = (if 0 \<le> b then PosInf else NegInf)"
| "divide_float64 NegInf (Finite b) = (if 0 \<le> b then NegInf else PosInf)"
| "divide_float64 x y = NaN"

definition inverse_float64 :: "float64 \<Rightarrow> float64" where
  "inverse_float64 x = divide (Finite 1) x"

fun less_eq_float64 :: "float64 \<Rightarrow> float64 \<Rightarrow> bool" where
  "less_eq_float64 NaN y = False"
| "less_eq_float64 x NaN = False"
| "less_eq_float64 (Finite a) (Finite b) = (a \<le> b)"
| "less_eq_float64 NegInf y = True"
| "less_eq_float64 x PosInf = True"
| "less_eq_float64 x y = False"

fun less_float64 :: "float64 \<Rightarrow> float64 \<Rightarrow> bool" where
  "less_float64 NaN y = False"
| "less_float64 x NaN = False"
| "less_float64 (Finite a) (Finite b) = (a < b)"
| "less_float64 PosInf y = False"
| "less_float64 x NegInf = False"
| "less_float64 x y = True"

instance ..

end

fun np_cos :: "float64 \<Rightarrow> float64" where
  "np_cos (Finite a) = Finite (cos a)"
| "np_cos x = NaN"

fun np_sin :: "float64 \<Rightarrow> float64" where
  "np_sin (Finite a) = Finite (sin a)"
| "np_sin x = NaN"

fun np_exp :: "float64 \<Rightarrow> float64" where
  "np_exp (Finite a) = Finite (exp a)"
| "np_exp PosInf = PosInf"
| "np_exp NegInf = Finite 0"
| "np_exp NaN = NaN"

fun np_sqrt :: "float64 \<Rightarrow> float64" where
  "np_sqrt (Finite a) = (if a < 0 then NaN else Finite (sqrt a))"
| "np_sqrt PosInf = PosInf"
| "np_sqrt NegInf = NaN"
| "np_sqrt NaN = NaN"

section \<open>The probability model of \<open>trophallaxis/prefilter.py\<close>\<close>

text \<open>
  A pose is a numpy array of three floats: x, y and the orientation angle. \<open>np.linalg.norm\<close>
  of a vector of two components is the square root of the sum of their squares.

  The functions receive their poses by reference, and \<open>xy0[:2]\<close> is a view into the
  array it slices, not a copy. The arrays therefore live in a store, from addresses to
  array contents, and a function that writes through a view returns the store it leaves.
\<close>

record pose =
  x_pos :: float64
  y_pos :: float64
  orientation :: float64

type_synonym addr = nat

type_synonym store = "addr \<Rightarrow> pose"

definition linalg_norm :: "float64 \<Rightarrow> float64 \<Rightarrow> float64" where
  \<comment> \<open>\<open>np.linalg.norm\<close> of a vector of two components\<close>
  "linalg_norm a b = np_sqrt (a * a + b * b)"

definition calculate_head_distance :: "store \<Rightarrow> addr \<Rightarrow> addr \<Rightarrow> float64 \<times> store" where
  \<comment> \<open>\<open>head0\<close> and \<open>head1\<close> are views of \<open>xy0\<close> and \<open>xy1\<close>: each \<open>+=\<close> writes the array\<close>
  "calculate_head_distance s xy0 xy1 =
     (let s1 = s(xy0 := (s xy0)\<lparr>x_pos := x_pos (s xy0) + Finite 3.19 * np_cos (orientation (s xy0))\<rparr>);
          s2 = s1(xy0 := (s1 xy0)\<lparr>y_pos := y_pos (s1 xy0) + Finite 3.19 * np_sin (orientation (s1 xy0))\<rparr>);
          s3 = s2(xy1 := (s2 xy1)\<lparr>x_pos := x_pos (s2 xy1) + Finite 3.19 * np_cos (orientation (s2 xy1))\<rparr>);
          s4 = s3(xy1 := (s3 xy1)\<lparr>y_pos := y_pos (s3 xy1) + Finite 3.19 * np_sin (orientation (s3 xy1))\<rparr>);
          d = linalg_norm (x_pos (s4 xy0) - x_pos (s4 xy1)) (y_pos (s4 xy0) - y_pos (s4 xy1))
      in (d, s4))"

definition calculate_angle_dot_distance :: "float64 \<Rightarrow> float64 \<Rightarrow> float64" where
  "calculate_angle_dot_distance r0 r1 = np_cos r0 * np_cos r1 + np_sin r0 * np_sin r1"

definition centroid_distance :: "store \<Rightarrow> addr \<Rightarrow> addr \<Rightarrow> float64" where
  \<comment> \<open>\<open>np.linalg.norm(xy0[:2] - xy1[:2])\<close>: the difference is a fresh array\<close>
  "centroid_distance s xy0 xy1 =
     linalg_norm (x_pos (s xy0) - x_pos (s xy1)) (y_pos (s xy0) - y_pos (s xy1))"

definition probability_distance_fun_' ::
  "store \<Rightarrow> addr \<Rightarrow> addr \<Rightarrow> float64 \<Rightarrow> float64 \<Rightarrow> float64 \<Rightarrow> float64 \<Rightarrow> float64 \<Rightarrow> float64
     \<Rightarrow> float64 \<times> store" where
  "probability_distance_fun_' s xy0 xy1 beta0 beta1 beta2 bias hard_min hard_max =
     (let distance = centroid_distance s xy0 xy1 in
      if distance \<le> hard_min \<or> distance \<ge> hard_max then (Finite 0, s)
      else
        (let (head_distance, s') = calculate_head_distance s xy0 xy1;
             angle_dot_distance =
               calculate_angle_dot_distance (orientation (s' xy0)) (orientation (s' xy1));
             distance' = distance * beta0 + head_distance * beta1
                         + angle_dot_distance * beta2 + bias
         in (Finite 1 / (Finite 1 + np_exp (- distance')), s')))"

definition probability_distance_fun :: "store \<Rightarrow> addr \<Rightarrow> addr \<Rightarrow> float64 \<times> store" where
  "probability_distance_fun s xy0 xy1 =
     probability_distance_fun_' s xy0 xy1 (Finite 2.04332357) (Finite (- 1.56938987))
       (Finite 1.92212738) (Finite (- 11.87978937))
       (Finite 6.843017734527588) (Finite 28.133578964233394)"

definition high_recall_threshold :: real where
  "high_recall_threshold = 0.45398181"

datatype error =
  IndexError | KeyError | FileNotFoundError | BadZipFile | AttributeError | TypeError
  | ValueError | CollaboratorError string

text \<open>
  The batched variant. A two-dimensional array is the list of the addresses of its rows
  (\<open>xy0[i,:]\<close> is a view of row \<open>i\<close>), and \<open>f32\<close> is the rounding of a float64 to the
  float32 of the \<open>out\<close> array. numba reads a row that \<open>xy1\<close> does not have without a
  check; the model raises numpy's \<open>IndexError\<close> there. A function that ends without a
  \<open>return\<close> returns Python's \<open>None\<close>: the result is an option, \<open>None\<close> for \<open>None\<close>.
\<close>

fun vectorized_loop ::
  "(float64 \<Rightarrow> float64) \<Rightarrow> addr list \<Rightarrow> addr list \<Rightarrow> nat list \<Rightarrow> float64 list \<times> store
     \<Rightarrow> error + float64 list \<times> store" where
  "vectorized_loop f32 xy0 xy1 [] (out, s) = Inr (out, s)"
| "vectorized_loop f32 xy0 xy1 (i # is) (out, s) =
     (if i < length xy1 then
        (let (p, s') = probability_distance_fun s (xy0 ! i) (xy1 ! i)
         in vectorized_loop f32 xy0 xy1 is (out[i := f32 p], s'))
      else Inl IndexError)"

definition probability_distance_fun_vectorized_' ::
  "(float64 \<Rightarrow> float64) \<Rightarrow> store \<Rightarrow> addr list \<Rightarrow> addr list \<Rightarrow> float64 list
     \<Rightarrow> error + float64 list option \<times> store" where
  \<comment> \<open>the parameter \<open>out\<close> is rebound to a fresh array, filled, and never returned\<close>
  "probability_distance_fun_vectorized_' f32 s xy0 xy1 out =
     (let out' = replicate (length xy0) (Finite 0) in
      case vectorized_loop f32 xy0 xy1 [0..<length xy0] (out', s) of
        Inl e \<Rightarrow> Inl e
      | Inr (out'', s') \<Rightarrow> Inr (None, s'))"

definition probability_distance_fun_vectorized ::
  "(float64 \<Rightarrow> float64) \<Rightarrow> store \<Rightarrow> addr list \<Rightarrow> addr list
     \<Rightarrow> error + float64 list option \<times> store" where
  "probability_distance_fun_vectorized f32 s xy0 xy1 =
     (let out = replicate (length xy0) (Finite 0) in
      probability_distance_fun_vectorized_' f32 s xy0 xy1 out)"

section \<open>Frames, candidate tables and the collaborators\<close>

text \<open>
  A \<open>datetime\<close> is a point of the naive calendar, counted in microseconds, so that adding
  \<open>datetime.timedelta(days=1)\<close> adds a fixed amount. A frame task is the tuple
  \<open>(timestamp, frame_id, cam_id)\<close>. A candidate table is a pandas frame with the columns
  \<open>frame_id\<close>, \<open>bee_id0\<close>, \<open>bee_id1\<close>, all of dtype \<open>uint64\<close>, as \<open>get_data_for_frame_id\<close>
  builds it; the model keeps its rows in order.

  The functions imported from \<open>..db\<close> are not part of this module. They are taken as
  parameters, together with Python's \<open>str\<close> on a datetime: an \<open>env\<close> holds what they
  answer, and any of the three database calls may raise. \<open>get_frames\<close> is handed the
  bounds of the window (the module passes their \<open>timestamp()\<close>).
\<close>

type_synonym datetime = int

definition timedelta_days :: "int \<Rightarrow> int" where
  "timedelta_days n = n * 86400000000"

type_synonym frame = "real \<times> nat \<times> nat"

type_synonym table = "(64 word \<times> 64 word \<times> 64 word) list"

record env =
  get_frames :: "nat \<Rightarrow> datetime \<Rightarrow> datetime \<Rightarrow> error + frame list"
  find_interactions_in_frame :: "nat \<Rightarrow> real \<Rightarrow> real \<Rightarrow> error + table"
  get_frame_metadata :: "64 word list \<Rightarrow> error + (64 word \<times> real) list"
  str_datetime :: "datetime \<Rightarrow> string"

definition get_data_for_frame_id ::
  "env \<Rightarrow> real \<Rightarrow> nat \<Rightarrow> nat \<Rightarrow> real \<Rightarrow> real \<Rightarrow> error + real \<times> nat \<times> nat \<times> table" where
  \<comment> \<open>the scoring function handed to the fetch is always \<open>probability_distance_fun\<close>\<close>
  "get_data_for_frame_id env timestamp frame_id cam_id max_distance min_distance =
     (case find_interactions_in_frame env frame_id max_distance min_distance of
        Inl e \<Rightarrow> Inl e
      | Inr core_data \<Rightarrow> Inr (timestamp, frame_id, cam_id, core_data))"

definition get_data_for_frame_id_high_recall ::
  "env \<Rightarrow> frame \<Rightarrow> error + real \<times> nat \<times> nat \<times> table" where
  "get_data_for_frame_id_high_recall env args =
     (case args of (timestamp, frame_id, cam_id) \<Rightarrow>
        get_data_for_frame_id env timestamp frame_id cam_id 2.0 high_recall_threshold)"

definition process_frame_with_prefilter ::
  "env \<Rightarrow> frame \<Rightarrow> error + real \<times> nat \<times> nat \<times> table" where
  "process_frame_with_prefilter env frame_info = get_data_for_frame_id_high_recall env frame_info"

section \<open>Strings and files\<close>

text \<open>
  Python's \<open>str.endswith\<close>, \<open>s.split("/")[-1]\<close>, \<open>str.replace\<close> (every occurrence, left to
  right, without overlap) and the decimal \<open>str\<close> of a natural number.
\<close>

definition endswith :: "string \<Rightarrow> string \<Rightarrow> bool" where
  "endswith s suffix =
     (length suffix \<le> length s \<and> drop (length s - length suffix) s = suffix)"

definition split_last :: "string \<Rightarrow> string" where
  \<comment> \<open>\<open>s.split("/")[-1]\<close>: what follows the last slash\<close>
  "split_last s = rev (takeWhile (\<lambda>c. c \<noteq> CHR ''/'') (rev s))"

definition startswith :: "string \<Rightarrow> string \<Rightarrow> bool" where
  "startswith s pre = (take (length pre) s = pre)"

function replace :: "string \<Rightarrow> string \<Rightarrow> string \<Rightarrow> string" where
  "replace old new s =
     (if old = [] then concat (map (\<lambda>c. new @ [c]) s) @ new
      else if s = [] then []
      else if startswith s old then new @ replace old new (drop (length old) s)
      else hd s # replace old new (tl s))"
  by pat_completeness auto
termination
  by (relation "measure (\<lambda>(old, new, s). length s)") auto

declare replace.simps [simp del]

function str_nat :: "nat \<Rightarrow> string" where
  "str_nat n =
     (if n < 10 then [''0123456789'' ! n]
      else str_nat (n div 10) @ [''0123456789'' ! (n mod 10)])"
  by pat_completeness auto
termination
  by (relation "measure id") auto

declare str_nat.simps [simp del]

text \<open>
  What a file holds: a msgpack document, a cloudpickle of frame tasks, or bytes of another
  kind, which msgpack rejects. A msgpack document decodes to a sequence of rows of three
  unsigned integers, or to a value that pandas refuses to build the frame from (a number,
  a string, rows of another width), of which the model keeps the truth value. A file is a
  zip archive with named entries or a regular file. The file system maps a path to its
  file; the destination directory is taken to exist, so a write succeeds.
\<close>

datatype pyvalue = RowList "(nat \<times> nat \<times> nat) list" | NotATable bool

datatype stream = Msgpack pyvalue | Cloudpickle "frame list" | OtherBytes

datatype disk_file = ZipArchive "(string \<times> stream) list" | Regular stream

type_synonym filesystem = "string \<rightharpoonup> disk_file"

definition msgpack_dump :: "(nat \<times> nat \<times> nat) list \<Rightarrow> stream" where
  "msgpack_dump rows = Msgpack (RowList rows)"

datatype unpack_exception = UnpackException

fun py_not :: "pyvalue \<Rightarrow> bool" where
  \<comment> \<open>Python's \<open>not data\<close>\<close>
  "py_not (RowList rows) = (rows = [])"
| "py_not (NotATable truth) = (\<not> truth)"

fun msgpack_load :: "stream \<Rightarrow> unpack_exception + pyvalue" where
  "msgpack_load (Msgpack data) = Inr data"
| "msgpack_load (Cloudpickle _) = Inl UnpackException"
| "msgpack_load OtherBytes = Inl UnpackException"

section \<open>The sweep: \<open>prefilter_data_for_timerange\<close>\<close>

text \<open>
  The state of a run: the file system, the running count \<open>skipped\<close>, and the calls the run
  has made to the outside, in order: each \<open>os.path.isfile\<close>, each \<open>get_frames\<close>, each task
  handed to the executor, each file opened for writing.

  The parameter \<open>progress\<close> is \<open>None\<close> or a string. \<open>None\<close> makes \<open>progress\<close> the function that
  returns its first argument, so that every progress bar of the run is \<open>None\<close>; \<open>"tqdm"\<close>
  and \<open>"tqdm_notebook"\<close> make it the constructor of a bar; any other string stays a string,
  and the first call of it raises \<open>TypeError\<close>. Of a bar the model keeps only whether it is
  there: the bar of the days and the one of the skips are used under a guard, the bar of
  the results is not, so that \<open>save_data\<close> and the \<open>close\<close> after the archive raise
  \<open>AttributeError\<close> when it is \<open>None\<close>.
\<close>

datatype progress_fn = Identity | Tqdm | TqdmNotebook

definition resolve_progress :: "string option \<Rightarrow> progress_fn option" where
  \<comment> \<open>lines 156 to 163; \<open>None\<close> when \<open>progress\<close> stays a string, which cannot be called\<close>
  "resolve_progress progress =
     (case progress of
        None \<Rightarrow> Some Identity
      | Some name \<Rightarrow>
          if name = ''tqdm'' then Some Tqdm
          else if name = ''tqdm_notebook'' then Some TqdmNotebook
          else None)"

datatype call =
  IsFile string | GetFrames nat datetime datetime | Submit frame
  | OpenWrite string | ZipWrite string

record sweep_state =
  files :: filesystem
  skipped :: nat
  calls :: "call list"

definition called :: "call list \<Rightarrow> sweep_state \<Rightarrow> sweep_state" where
  "called cs st = st\<lparr>calls := calls st @ cs\<rparr>"

definition dt_to_string :: "env \<Rightarrow> string \<Rightarrow> nat \<Rightarrow> datetime \<Rightarrow> datetime \<Rightarrow> string" where
  "dt_to_string env target_dir cam dt dt_to =
     target_dir @ ''/prefilter.'' @ str_nat cam @ ''_'' @ str_datetime env dt
       @ ''_'' @ str_datetime env dt_to @ ''.zip''"

definition iter_frames_to_filter :: "env \<Rightarrow> nat \<Rightarrow> datetime \<Rightarrow> datetime \<Rightarrow> error + frame list" where
  "iter_frames_to_filter env cam_id from_dt to_dt =
     (case get_frames env cam_id from_dt to_dt of
        Inl e \<Rightarrow> Inl e
      | Inr all_frames \<Rightarrow>
          Inr (map snd (filter (\<lambda>(idx, f). idx mod 3 = 0) (enumerate 0 all_frames))))"

type_synonym results_dict = "((nat \<times> real \<times> nat) \<times> table) list"

definition save_data ::
  "progress_fn \<Rightarrow> results_dict \<times> frame list \<Rightarrow> real \<times> nat \<times> nat \<times> table
     \<Rightarrow> error + results_dict \<times> frame list" where
  \<comment> \<open>the dict keeps the place of a key it already holds, as \<open>AList.update\<close> does;
      \<open>result_progress.set_postfix\<close> then raises when \<open>result_progress\<close> is \<open>None\<close>\<close>
  "save_data progress acc results =
     (case acc of (all_interaction_results, all_failed_keys) \<Rightarrow>
      case results of (timestamp, frame_id, cam_id, core_data) \<Rightarrow>
        (let acc' =
           (if length core_data = 0
            then (all_interaction_results, all_failed_keys @ [(timestamp, frame_id, cam_id)])
            else (AList.update (cam_id, timestamp, frame_id) core_data all_interaction_results,
                  all_failed_keys))
         in if progress = Identity then Inl AttributeError else Inr acc'))"

fun executor_map_save ::
  "env \<Rightarrow> progress_fn \<Rightarrow> frame list \<Rightarrow> results_dict \<times> frame list
     \<Rightarrow> error + results_dict \<times> frame list" where
  \<comment> \<open>\<open>for result in executor.map(process_frame_with_prefilter, ...): save_data(result)\<close>:
      results come in the order of the tasks, and the first task that raised ends the loop\<close>
  "executor_map_save env progress [] acc = Inr acc"
| "executor_map_save env progress (task # tasks) acc =
     (case process_frame_with_prefilter env task of
        Inl e \<Rightarrow> Inl e
      | Inr result \<Rightarrow>
          (case save_data progress acc result of
             Inl e \<Rightarrow> Inl e
           | Inr acc' \<Rightarrow> executor_map_save env progress tasks acc'))"

definition astype_uint16 :: "64 word \<Rightarrow> 16 word" where
  \<comment> \<open>numpy's \<open>astype(np.uint16)\<close> keeps the low 16 bits and raises nothing\<close>
  "astype_uint16 v = ucast v"

definition archive_rows :: "table \<Rightarrow> (nat \<times> nat \<times> nat) list" where
  \<comment> \<open>lines 224 to 229: the three casts, then \<open>itertuples\<close> gives rows of Python integers\<close>
  "archive_rows data_df =
     map (\<lambda>(frame_id, bee_id0, bee_id1).
            (unat frame_id, unat (astype_uint16 bee_id0), unat (astype_uint16 bee_id1))) data_df"

definition write_archive :: "string \<Rightarrow> (nat \<times> nat \<times> nat) list \<Rightarrow> sweep_state \<Rightarrow> sweep_state" where
  \<comment> \<open>lines 231 to 233: one entry, named after the archive\<close>
  "write_archive output_filename raw_df st =
     called [ZipWrite output_filename]
       (st\<lparr>files := (files st)(output_filename \<mapsto>
            ZipArchive [(replace ''zip'' ''msgpack'' (split_last output_filename),
                         msgpack_dump raw_df)])\<rparr>)"

definition write_failed :: "string \<Rightarrow> frame list \<Rightarrow> sweep_state \<Rightarrow> sweep_state" where
  "write_failed output_filename all_failed_keys st =
     called [OpenWrite (output_filename @ ''.failed.cloudpickle'')]
       (st\<lparr>files := (files st)(output_filename @ ''.failed.cloudpickle'' \<mapsto>
            Regular (Cloudpickle all_failed_keys))\<rparr>)"

definition process_window ::
  "env \<Rightarrow> progress_fn \<Rightarrow> string \<Rightarrow> datetime \<Rightarrow> datetime \<Rightarrow> nat \<Rightarrow> sweep_state
     \<Rightarrow> sweep_state \<times> error option" where
  \<comment> \<open>the body of the loop over the cameras; \<open>Some e\<close> when \<open>e\<close> was raised\<close>
  "process_window env progress target_dir current_day_start current_day_end cam_id st0 =
     (let output_filename = dt_to_string env target_dir cam_id current_day_start current_day_end;
          st = called [IsFile output_filename] st0
      in if files st output_filename \<noteq> None then (st\<lparr>skipped := skipped st + 1\<rparr>, None)
         else
          (let st = called [GetFrames cam_id current_day_start current_day_end] st in
           case iter_frames_to_filter env cam_id current_day_start current_day_end of
             Inl e \<Rightarrow> (st, Some e)
           | Inr tasks \<Rightarrow>
              (let st = called (map Submit tasks) st in
               case executor_map_save env progress tasks ([], []) of
                 Inl e \<Rightarrow> (st, Some e)
               | Inr (all_interaction_results, all_failed_keys) \<Rightarrow>
                  (let st = (if length all_failed_keys > 0
                             then write_failed output_filename all_failed_keys st else st)
                   in if length all_interaction_results = 0 then (st, None)
                      else
                       (let data_df = concat (map snd all_interaction_results);
                            raw_df = archive_rows data_df;
                            st = write_archive output_filename raw_df st
                        in if progress = Identity then (st, Some AttributeError)
                           else (st, None))))))"

fun cam_loop ::
  "env \<Rightarrow> progress_fn \<Rightarrow> string \<Rightarrow> datetime \<Rightarrow> datetime \<Rightarrow> nat list \<Rightarrow> sweep_state
     \<Rightarrow> sweep_state \<times> error option" where
  "cam_loop env progress target_dir current_day_start current_day_end [] st = (st, None)"
| "cam_loop env progress target_dir current_day_start current_day_end (cam_id # cams) st =
     (case process_window env progress target_dir current_day_start current_day_end cam_id st of
        (st', Some e) \<Rightarrow> (st', Some e)
      | (st', None) \<Rightarrow>
          cam_loop env progress target_dir current_day_start current_day_end cams st')"

function day_loop ::
  "env \<Rightarrow> progress_fn \<Rightarrow> string \<Rightarrow> datetime \<Rightarrow> datetime \<Rightarrow> sweep_state
     \<Rightarrow> sweep_state \<times> error option" where
  "day_loop env progress target_dir current_day_start dt_to st =
     (if current_day_start > dt_to then (st, None)
      else
       (let current_day_end = current_day_start + timedelta_days 1 in
        case cam_loop env progress target_dir current_day_start current_day_end [0..<4] st of
          (st', Some e) \<Rightarrow> (st', Some e)
        | (st', None) \<Rightarrow> day_loop env progress target_dir current_day_end dt_to st'))"
  by pat_completeness auto
termination
  by (relation "measure (\<lambda>(env, progress, target_dir, current_day_start, dt_to, st).
        nat (dt_to - current_day_start + 1))")
     (auto simp: timedelta_days_def)

declare day_loop.simps [simp del]

definition the_target_dir :: "string option \<Rightarrow> string" where
  \<comment> \<open>\<open>if target_dir is None: target_dir = ...\<close>\<close>
  "the_target_dir target_dir =
     (case target_dir of
        None \<Rightarrow> ''/mnt/storage/david/cache/beesbook/trophallaxis/''
      | Some d \<Rightarrow> d)"

definition prefilter_data_for_timerange ::
  "env \<Rightarrow> datetime \<Rightarrow> datetime \<Rightarrow> string option \<Rightarrow> string option \<Rightarrow> filesystem
     \<Rightarrow> sweep_state \<times> error option" where
  \<comment> \<open>an uncallable \<open>progress\<close> raises at \<open>trange = progress(...)\<close>, before the first day\<close>
  "prefilter_data_for_timerange env dt_from dt_to target_dir progress fs =
     (case resolve_progress progress of
        None \<Rightarrow> (\<lparr>files = fs, skipped = 0, calls = []\<rparr>, Some TypeError)
      | Some progress \<Rightarrow>
          day_loop env progress (the_target_dir target_dir) dt_from dt_to
            \<lparr>files = fs, skipped = 0, calls = []\<rparr>)"

section \<open>Loading an archive: \<open>load_processed_data\<close>\<close>

text \<open>
  The source is a path or an open file object. The result is \<open>Inl\<close> for an exception that
  leaves the function, \<open>Inr None\<close> for Python's \<open>None\<close>, and \<open>Inr (Some rows)\<close> for the merged
  frame, whose rows are \<open>(frame_id, bee_id0, bee_id1, timestamp, datetime)\<close>. A decoded
  value that is not a table makes \<open>pd.DataFrame\<close> raise \<open>ValueError\<close>, outside the \<open>try\<close>. msgpack holds
  unsigned integers of at most 64 bits, so the frame of dtype \<open>uint64\<close> takes them as
  they are. The merge is pandas' inner join on \<open>frame_id\<close>, in the order of the left rows.
\<close>

datatype source = Path string | FileObject stream

type_synonym merged = "(64 word \<times> 64 word \<times> 64 word \<times> real \<times> real) list"

definition read_bytes :: "disk_file \<Rightarrow> stream" where
  \<comment> \<open>\<open>open(f, "rb")\<close>: a zip archive read as plain bytes is no msgpack document\<close>
  "read_bytes d = (case d of Regular s \<Rightarrow> s | ZipArchive entries \<Rightarrow> OtherBytes)"

definition merge_inner :: "table \<Rightarrow> (64 word \<times> real) list \<Rightarrow> merged" where
  "merge_inner data metadata =
     concat (map (\<lambda>(frame_id, bee_id0, bee_id1).
                    map (\<lambda>(fid, timestamp). (frame_id, bee_id0, bee_id1, timestamp, timestamp))
                      (filter (\<lambda>(fid, timestamp). fid = frame_id) metadata)) data)"

definition unique :: "'a list \<Rightarrow> 'a list" where
  \<comment> \<open>pandas' \<open>unique\<close>: the distinct values, in the order of their first appearance\<close>
  "unique xs = rev (remdups (rev xs))"

function load_processed_data :: "env \<Rightarrow> filesystem \<Rightarrow> source \<Rightarrow> error + merged option" where
  "load_processed_data env fs (Path f) =
     (if endswith f ''.zip'' then
        (case fs f of
           None \<Rightarrow> Inl FileNotFoundError
         | Some (Regular s) \<Rightarrow> Inl BadZipFile
         | Some (ZipArchive entries) \<Rightarrow>
            (case map_of entries (replace ''.zip'' ''.msgpack'' (split_last f)) of
               None \<Rightarrow> Inl KeyError
             | Some file \<Rightarrow> load_processed_data env fs (FileObject file)))
      else if endswith f ''.msgpack'' then
        (case fs f of
           None \<Rightarrow> Inl FileNotFoundError
         | Some d \<Rightarrow> load_processed_data env fs (FileObject (read_bytes d)))
      else Inr None)"
| "load_processed_data env fs (FileObject file) =
     (case msgpack_load file of
        Inl e \<Rightarrow> Inr None
      | Inr data \<Rightarrow>
         if py_not data then Inr None
         else
          (case data of
             NotATable truth \<Rightarrow> Inl ValueError
           | RowList rows \<Rightarrow>
              (let data = map (\<lambda>(a, b, c). (of_nat a, of_nat b, of_nat c)) rows;
                   all_frame_ids = unique (map fst data)
               in case get_frame_metadata env all_frame_ids of
                    Inl e \<Rightarrow> Inl e
                  | Inr metadata \<Rightarrow> Inr (Some (merge_inner data metadata)))))"
  by pat_completeness auto
termination
  by (relation "measure (\<lambda>(env, fs, src). case src of Path f \<Rightarrow> 1 | FileObject file \<Rightarrow> 0)") auto

section \<open>Notions the theorems are stated with\<close>

text \<open>A pose is finite when none of its three components is an infinity or NaN.\<close>

definition finite_pose :: "pose \<Rightarrow> bool" where
  "finite_pose p =
     (case (x_pos p, y_pos p, orientation p) of
        (Finite x, Finite y, Finite r) \<Rightarrow> True
      | _ \<Rightarrow> False)"

text \<open>
  Readings of the list of calls: the tasks handed to the executor, the paths probed with
  \<open>os.path.isfile\<close>, and the archives written.
\<close>

definition submitted :: "call list \<Rightarrow> frame list" where
  "submitted cs = concat (map (\<lambda>c. case c of Submit t \<Rightarrow> [t] | _ \<Rightarrow> []) cs)"

definition probed :: "call list \<Rightarrow> string list" where
  "probed cs = concat (map (\<lambda>c. case c of IsFile p \<Rightarrow> [p] | _ \<Rightarrow> []) cs)"

definition archive_writes :: "call list \<Rightarrow> string list" where
  "archive_writes cs = concat (map (\<lambda>c. case c of ZipWrite p \<Rightarrow> [p] | _ \<Rightarrow> []) cs)"

text \<open>The three columns of the archive in a row of the merged frame.\<close>

definition core_columns ::
  "64 word \<times> 64 word \<times> 64 word \<times> real \<times> real \<Rightarrow> 64 word \<times> 64 word \<times> 64 word" where
  "core_columns row = (case row of (frame_id, bee_id0, bee_id1, timestamp, dt) \<Rightarrow>
                         (frame_id, bee_id0, bee_id1))"

definition bee_ids_fit :: "64 word \<times> 64 word \<times> 64 word \<Rightarrow> bool" where
  "bee_ids_fit row = (case row of (frame_id, bee_id0, bee_id1) \<Rightarrow>
                        unat bee_id0 < 65536 \<and> unat bee_id1 < 65536)"

text \<open>Every third element of a list, from the first on.\<close>

fun every_third :: "'a list \<Rightarrow> 'a list" where
  "every_third (a # b # c # rest) = a # every_third rest"
| "every_third (a # rest) = [a]"
| "every_third [] = []"

text \<open>
  The two nested loops of the sweep visit a list of windows \<open>(day start, day end, camera)\<close>,
  which \<open>day_windows\<close> lists in the order of the visits; \<open>run_windows\<close> runs the body of
  the loops over such a list and stops at the first exception. \<open>window_results\<close> is what
  the tasks of one window give, and a window is \<open>settled\<close> in a set of existing paths when
  its archive is there, or it has no result to archive and its list of failed keys is on
  disk if it has one.
\<close>

function day_windows :: "datetime \<Rightarrow> datetime \<Rightarrow> (datetime \<times> datetime \<times> nat) list" where
  "day_windows current_day_start dt_to =
     (if current_day_start > dt_to then []
      else map (\<lambda>cam_id. (current_day_start, current_day_start + timedelta_days 1, cam_id)) [0..<4]
           @ day_windows (current_day_start + timedelta_days 1) dt_to)"
  by pat_completeness auto
termination
  by (relation "measure (\<lambda>(current_day_start, dt_to). nat (dt_to - current_day_start + 1))")
     (auto simp: timedelta_days_def)

declare day_windows.simps [simp del]

fun run_windows ::
  "env \<Rightarrow> progress_fn \<Rightarrow> string \<Rightarrow> (datetime \<times> datetime \<times> nat) list \<Rightarrow> sweep_state
     \<Rightarrow> sweep_state \<times> error option" where
  "run_windows env progress target_dir [] st = (st, None)"
| "run_windows env progress target_dir ((d, d', cam_id) # ws) st =
     (case process_window env progress target_dir d d' cam_id st of
        (st', Some e) \<Rightarrow> (st', Some e)
      | (st', None) \<Rightarrow> run_windows env progress target_dir ws st')"

definition window_results ::
  "env \<Rightarrow> progress_fn \<Rightarrow> datetime \<times> datetime \<times> nat \<Rightarrow> error + results_dict \<times> frame list" where
  "window_results env progress w =
     (case w of (d, d', cam_id) \<Rightarrow>
        case iter_frames_to_filter env cam_id d d' of
          Inl e \<Rightarrow> Inl e
        | Inr tasks \<Rightarrow> executor_map_save env progress tasks ([], []))"

definition window_path :: "env \<Rightarrow> string \<Rightarrow> datetime \<times> datetime \<times> nat \<Rightarrow> string" where
  "window_path env target_dir w = (case w of (d, d', cam_id) \<Rightarrow> dt_to_string env target_dir cam_id d d')"

definition settled ::
  "env \<Rightarrow> progress_fn \<Rightarrow> string \<Rightarrow> string set \<Rightarrow> datetime \<times> datetime \<times> nat \<Rightarrow> bool" where
  "settled env progress target_dir D w =
     (window_path env target_dir w \<in> D
      \<or> (case window_results env progress w of
            Inl e \<Rightarrow> False
          | Inr (all_interaction_results, all_failed_keys) \<Rightarrow>
              all_interaction_results = []
              \<and> (all_failed_keys = []
                 \<or> window_path env target_dir w @ ''.failed.cloudpickle'' \<in> D)))"

text \<open>
  A run \<open>enumerates_only_missing\<close> when every \<open>get_frames\<close> call it adds to the calls made
  before is for a window whose archive is not among the existing paths.
\<close>

definition enumerates_only_missing ::
  "env \<Rightarrow> string \<Rightarrow> string set \<Rightarrow> call list \<Rightarrow> call list \<Rightarrow> bool" where
  "enumerates_only_missing env td D before after =
     (\<forall>c a b. GetFrames c a b \<in> set after
        \<longrightarrow> GetFrames c a b \<in> set before \<or> dt_to_string env td c a b \<notin> D)"

section \<open>Example inputs\<close>

text \<open>
  Two poses ten units apart on the x axis, both heading along it; and the same pair with
  NaN as the x of the first.
\<close>

definition example_store :: store where
  "example_store =
     (\<lambda>_. \<lparr>x_pos = Finite 0, y_pos = Finite 0, orientation = Finite 0\<rparr>)
       (1 := \<lparr>x_pos = Finite 10, y_pos = Finite 0, orientation = Finite 0\<rparr>)"

definition example_nan_store :: store where
  "example_nan_store =
     (\<lambda>_. \<lparr>x_pos = NaN, y_pos = Finite 0, orientation = Finite 0\<rparr>)
       (1 := \<lparr>x_pos = Finite 10, y_pos = Finite 0, orientation = Finite 0\<rparr>)"

text \<open>
  Collaborators for the examples: every window of camera c has the four frames 10 c to
  10 c + 3, only frame 0 has a candidate pair, whose first bee id is 65536, the metadata
  knows every frame, and a datetime prints as its day number.
\<close>

definition example_env :: env where
  "example_env =
     \<lparr>get_frames = (\<lambda>cam_id from_dt to_dt.
          Inr [(0, 10 * cam_id, cam_id), (1, 10 * cam_id + 1, cam_id),
               (2, 10 * cam_id + 2, cam_id), (3, 10 * cam_id + 3, cam_id)]),
      find_interactions_in_frame = (\<lambda>frame_id max_distance min_distance.
          if frame_id = 0 then Inr [(0, 65536, 2)] else Inr []),
      get_frame_metadata = (\<lambda>frame_ids. Inr (map (\<lambda>i. (i, 0)) frame_ids)),
      str_datetime = (\<lambda>dt. str_nat (nat (dt div 86400000000)))\<rparr>"

definition empty_state :: sweep_state where
  "empty_state = \<lparr>files = Map.empty, skipped = 0, calls = []\<rparr>"

section \<open>Basic facts about the state and its calls\<close>

lemma calls_called [simp]: "calls (called cs st) = calls st @ cs"
  by (simp add: called_def)

lemma files_called [simp]: "files (called cs st) = files st"
  by (simp add: called_def)

lemma skipped_called [simp]: "skipped (called cs st) = skipped st"
  by (simp add: called_def)

lemma calls_write_failed [simp]:
  "calls (write_failed p ks st) = calls st @ [OpenWrite (p @ ''.failed.cloudpickle'')]"
  by (simp add: write_failed_def)

lemma calls_write_archive [simp]:
  "calls (write_archive p rows st) = calls st @ [ZipWrite p]"
  by (simp add: write_archive_def)

lemma files_write_failed [simp]:
  "files (write_failed p ks st) = (files st)(p @ ''.failed.cloudpickle'' \<mapsto> Regular (Cloudpickle ks))"
  by (simp add: write_failed_def)

lemma files_write_archive [simp]:
  "files (write_archive p rows st)
     = (files st)(p \<mapsto> ZipArchive [(replace ''zip'' ''msgpack'' (split_last p), msgpack_dump rows)])"
  by (simp add: write_archive_def)

lemma submitted_append [simp]: "submitted (xs @ ys) = submitted xs @ submitted ys"
  by (simp add: submitted_def)

lemma submitted_Submit [simp]: "submitted (map Submit ts) = ts"
  by (induction ts) (simp_all add: submitted_def)

lemma submitted_simps [simp]:
  "submitted [] = []"
  "submitted (IsFile p # cs) = submitted cs"
  "submitted (GetFrames c d d' # cs) = submitted cs"
  "submitted (OpenWrite p # cs) = submitted cs"
  "submitted (ZipWrite p # cs) = submitted cs"
  by (simp_all add: submitted_def)

lemma probed_append [simp]: "probed (xs @ ys) = probed xs @ probed ys"
  by (simp add: probed_def)

lemma probed_Submit [simp]: "probed (map Submit ts) = []"
  by (induction ts) (simp_all add: probed_def)

lemma probed_simps [simp]:
  "probed [] = []"
  "probed (IsFile p # cs) = p # probed cs"
  "probed (GetFrames c d d' # cs) = probed cs"
  "probed (OpenWrite p # cs) = probed cs"
  "probed (ZipWrite p # cs) = probed cs"
  by (simp_all add: probed_def)

lemma archive_writes_append [simp]:
  "archive_writes (xs @ ys) = archive_writes xs @ archive_writes ys"
  by (simp add: archive_writes_def)

lemma archive_writes_Submit [simp]: "archive_writes (map Submit ts) = []"
  by (induction ts) (simp_all add: archive_writes_def)

lemma archive_writes_simps [simp]:
  "archive_writes [] = []"
  "archive_writes (IsFile p # cs) = archive_writes cs"
  "archive_writes (GetFrames c d d' # cs) = archive_writes cs"
  "archive_writes (OpenWrite p # cs) = archive_writes cs"
  "archive_writes (ZipWrite p # cs) = p # archive_writes cs"
  by (simp_all add: archive_writes_def)

section \<open>The score\<close>

lemma finite_poseE:
  assumes "finite_pose p"
  obtains x y r where "p = \<lparr>x_pos = Finite x, y_pos = Finite y, orientation = Finite r\<rparr>"
proof -
  from assms obtain x y r where "x_pos p = Finite x" "y_pos p = Finite y" "orientation p = Finite r"
    by (auto simp: finite_pose_def split: float64.splits)
  then have "p = \<lparr>x_pos = Finite x, y_pos = Finite y, orientation = Finite r\<rparr>" by simp
  then show ?thesis by (rule that)
qed

lemma linalg_norm_Finite [simp]: "linalg_norm (Finite a) (Finite b) = Finite (sqrt (a * a + b * b))"
proof -
  have "\<not> a * a + b * b < 0" by (simp add: not_less)
  then show ?thesis by (simp add: linalg_norm_def)
qed

lemma linalg_norm_axis: "linalg_norm (Finite a) (Finite 0) = Finite \<bar>a\<bar>"
  by simp

lemma minus_Finite [simp]: "Finite a - Finite b = Finite (a - b)"
  by (simp add: minus_float64_def)

lemma calculate_head_distance_orientation:
  "orientation (snd (calculate_head_distance s xy0 xy1) a) = orientation (s a)"
  by (simp add: calculate_head_distance_def Let_def)

lemma calculate_head_distance_finite:
  assumes "finite_pose (s xy0)" "finite_pose (s xy1)"
  shows "\<exists>h. fst (calculate_head_distance s xy0 xy1) = Finite h"
proof -
  from assms(1) obtain x0 y0 r0 where
    p0: "s xy0 = \<lparr>x_pos = Finite x0, y_pos = Finite y0, orientation = Finite r0\<rparr>"
    by (rule finite_poseE)
  from assms(2) obtain x1 y1 r1 where
    p1: "s xy1 = \<lparr>x_pos = Finite x1, y_pos = Finite y1, orientation = Finite r1\<rparr>"
    by (rule finite_poseE)
  show ?thesis
    by (cases "xy0 = xy1") (simp_all add: calculate_head_distance_def Let_def p0 p1)
qed

lemma centroid_distance_finite:
  assumes "finite_pose (s xy0)" "finite_pose (s xy1)"
  shows "\<exists>d. centroid_distance s xy0 xy1 = Finite d"
proof -
  from assms(1) obtain x0 y0 r0 where
    p0: "s xy0 = \<lparr>x_pos = Finite x0, y_pos = Finite y0, orientation = Finite r0\<rparr>"
    by (rule finite_poseE)
  from assms(2) obtain x1 y1 r1 where
    p1: "s xy1 = \<lparr>x_pos = Finite x1, y_pos = Finite y1, orientation = Finite r1\<rparr>"
    by (rule finite_poseE)
  show ?thesis by (simp add: centroid_distance_def p0 p1)
qed

lemma sigmoid_range: "0 < 1 / (1 + exp (- z :: real)) \<and> 1 / (1 + exp (- z)) < 1"
proof -
  have "0 < exp (- z)" by simp
  then show ?thesis by (simp add: field_simps add_pos_pos)
qed

lemma one_plus_exp_nonzero [simp]: "1 + exp (x :: real) \<noteq> 0"
  using exp_gt_zero [of x] by linarith

lemma sigmoid_Finite:
  "Finite 1 / (Finite 1 + np_exp (- Finite z)) = Finite (1 / (1 + exp (- z)))"
proof -
  have "1 + exp (- z) \<noteq> 0" using exp_gt_zero [of "- z"] by linarith
  then show ?thesis by simp
qed

lemma example_centroid_distance_far: "centroid_distance example_store 0 1 = Finite 10"
  by (simp add: centroid_distance_def example_store_def)

lemma example_centroid_distance_same: "centroid_distance example_store 0 0 = Finite 0"
  by (simp add: centroid_distance_def example_store_def)

lemma example_head_distance:
  "calculate_head_distance example_store 0 1 =
     (Finite 10,
      example_store(0 := \<lparr>x_pos = Finite 3.19, y_pos = Finite 0, orientation = Finite 0\<rparr>,
                    1 := \<lparr>x_pos = Finite 13.19, y_pos = Finite 0, orientation = Finite 0\<rparr>))"
  by (simp add: calculate_head_distance_def example_store_def Let_def fun_upd_twist)

lemma example_score:
  "probability_distance_fun example_store 0 1 =
     (Finite (1 / (1 + exp 5.21832499)),
      example_store(0 := \<lparr>x_pos = Finite 3.19, y_pos = Finite 0, orientation = Finite 0\<rparr>,
                    1 := \<lparr>x_pos = Finite 13.19, y_pos = Finite 0, orientation = Finite 0\<rparr>))"
  by (simp add: probability_distance_fun_def probability_distance_fun_'_def Let_def
      example_centroid_distance_far example_head_distance calculate_angle_dot_distance_def
      del: One_nat_def)

text \<open>
  C1. When the distance of the two centroids is at most the lower hard bound or at least
  the upper one, the calibrated score is exactly 0, whatever the orientations are, and the
  store is returned as it was: the head distance, which would write it, is not computed.
  A NaN distance satisfies neither comparison, so the statement covers every pose.
\<close>

theorem score_zero_outside_hard_bounds:
  "centroid_distance s xy0 xy1 \<le> Finite 6.843017734527588
     \<or> centroid_distance s xy0 xy1 \<ge> Finite 28.133578964233394
   \<Longrightarrow> probability_distance_fun s xy0 xy1 = (Finite 0, s)"
  by (simp add: probability_distance_fun_def probability_distance_fun_'_def Let_def)

theorem score_zero_outside_hard_bounds_witness:
  "centroid_distance example_store 0 0 \<le> Finite 6.843017734527588
   \<and> probability_distance_fun example_store 0 0 = (Finite 0, example_store)"
  using score_zero_outside_hard_bounds [of example_store 0 0]
  by (simp add: example_centroid_distance_same)

text \<open>
  C2 (amended). For two poses whose components are all finite, with the finite arithmetic
  taken as exact, the calibrated score lies in [0, 1]: it is 0 on the rejected branch, and
  on the accepted branch it is the sigmoid of the linear combination z, strictly between
  0 and 1.
\<close>

theorem score_in_unit_interval:
  assumes "finite_pose (s xy0)" "finite_pose (s xy1)"
  shows
  "let d = centroid_distance s xy0 xy1;
       p = fst (probability_distance_fun s xy0 xy1);
       z = d * Finite 2.04332357 + fst (calculate_head_distance s xy0 xy1) * Finite (- 1.56938987)
           + calculate_angle_dot_distance (orientation (s xy0)) (orientation (s xy1))
             * Finite 1.92212738
           + Finite (- 11.87978937)
   in Finite 0 \<le> p \<and> p \<le> Finite 1
      \<and> (d \<le> Finite 6.843017734527588 \<or> d \<ge> Finite 28.133578964233394 \<longrightarrow> p = Finite 0)
      \<and> (Finite 6.843017734527588 < d \<and> d < Finite 28.133578964233394 \<longrightarrow>
            p = Finite 1 / (Finite 1 + np_exp (- z)) \<and> Finite 0 < p \<and> p < Finite 1)"
proof -
  obtain d where d: "centroid_distance s xy0 xy1 = Finite d"
    using centroid_distance_finite [OF assms] by blast
  obtain h where h: "fst (calculate_head_distance s xy0 xy1) = Finite h"
    using calculate_head_distance_finite [OF assms] by blast
  obtain r0 where r0: "orientation (s xy0) = Finite r0"
    using assms(1) by (auto elim: finite_poseE)
  obtain r1 where r1: "orientation (s xy1) = Finite r1"
    using assms(2) by (auto elim: finite_poseE)
  obtain hd s' where chd: "calculate_head_distance s xy0 xy1 = (hd, s')"
    by (cases "calculate_head_distance s xy0 xy1")
  with h have hd: "hd = Finite h" by simp
  have ori: "orientation (s' a) = orientation (s a)" for a
    using calculate_head_distance_orientation [of s xy0 xy1 a] chd by simp
  let ?z = "d * 2.04332357 + h * (- 1.56938987)
           + (cos r0 * cos r1 + sin r0 * sin r1) * 1.92212738 + (- 11.87978937)"
  have z: "Finite d * Finite 2.04332357 + Finite h * Finite (- 1.56938987)
           + calculate_angle_dot_distance (Finite r0) (Finite r1) * Finite 1.92212738
           + Finite (- 11.87978937) = Finite ?z"
    by (simp add: calculate_angle_dot_distance_def)
  show ?thesis
  proof (cases "d \<le> 6.843017734527588 \<or> d \<ge> 28.133578964233394")
    case True
    then have "\<not> (6.843017734527588 < d \<and> d < 28.133578964233394)" by linarith
    with True show ?thesis
      by (simp add: probability_distance_fun_def probability_distance_fun_'_def Let_def d)
  next
    case False
    then have rng: "6.843017734527588 < d" "d < 28.133578964233394" by auto
    have p: "fst (probability_distance_fun s xy0 xy1) = Finite (1 / (1 + exp (- ?z)))"
      using False
      by (simp only: probability_distance_fun_def probability_distance_fun_'_def Let_def d
          chd hd ori r0 r1 z sigmoid_Finite less_eq_float64.simps if_False split_conv fst_conv)
    have "0 < 1 / (1 + exp (- ?z))" "1 / (1 + exp (- ?z)) < 1"
      using sigmoid_range [of ?z] by blast+
    with p rng show ?thesis
      by (simp only: Let_def d h r0 r1 z sigmoid_Finite less_eq_float64.simps
          less_float64.simps float64.inject) linarith
  qed
qed

theorem score_in_unit_interval_witness:
  "finite_pose (example_store 0) \<and> finite_pose (example_store 1)
   \<and> Finite 6.843017734527588 < centroid_distance example_store 0 1
   \<and> centroid_distance example_store 0 1 < Finite 28.133578964233394
   \<and> fst (probability_distance_fun example_store 0 1) = Finite (1 / (1 + exp 5.21832499))
   \<and> Finite 0 < fst (probability_distance_fun example_store 0 1)
   \<and> fst (probability_distance_fun example_store 0 1) < Finite 1"
proof -
  let ?p = "fst (probability_distance_fun example_store 0 1)"
  have fin: "finite_pose (example_store 0)" "finite_pose (example_store 1)"
    by (simp_all add: example_store_def finite_pose_def)
  have accepted: "Finite 6.843017734527588 < centroid_distance example_store 0 1
      \<and> centroid_distance example_store 0 1 < Finite 28.133578964233394"
    by (simp add: example_centroid_distance_far del: One_nat_def)
  from score_in_unit_interval [OF fin] accepted
  have "Finite 0 < ?p \<and> ?p < Finite 1"
    unfolding Let_def by blast
  moreover have "?p = Finite (1 / (1 + exp 5.21832499))"
    by (simp add: example_score del: One_nat_def)
  ultimately show ?thesis using fin accepted by blast
qed

text \<open>
  C2 as stated, for every pair of poses, fails: with NaN as the x of the first pose the
  distance is NaN, neither hard bound rejects it, and the score is NaN, which is not in
  [0, 1].
\<close>

theorem nan_pose_scores_nan:
  "example_nan_store 0 = \<lparr>x_pos = NaN, y_pos = Finite 0, orientation = Finite 0\<rparr>
   \<and> example_nan_store 1 = \<lparr>x_pos = Finite 10, y_pos = Finite 0, orientation = Finite 0\<rparr>
   \<and> fst (probability_distance_fun example_nan_store 0 1) = NaN
   \<and> \<not> (Finite 0 \<le> fst (probability_distance_fun example_nan_store 0 1)
         \<and> fst (probability_distance_fun example_nan_store 0 1) \<le> Finite 1)"
  by (simp add: probability_distance_fun_def probability_distance_fun_'_def Let_def
      centroid_distance_def calculate_head_distance_def calculate_angle_dot_distance_def
      example_nan_store_def linalg_norm_def minus_float64_def)

section \<open>Scoring writes its inputs\<close>

text \<open>
  Whatever two finite poses are given, \<open>calculate_head_distance\<close> changes the array it is
  given as \<open>xy0\<close>: the head offset has length 3.19, so x or y moves.
\<close>

theorem calculate_head_distance_moves:
  assumes "finite_pose (s xy0)" "finite_pose (s xy1)"
  shows "snd (calculate_head_distance s xy0 xy1) xy0 \<noteq> s xy0"
proof
  assume eq: "snd (calculate_head_distance s xy0 xy1) xy0 = s xy0"
  from assms(1) obtain x0 y0 r0 where
    p0: "s xy0 = \<lparr>x_pos = Finite x0, y_pos = Finite y0, orientation = Finite r0\<rparr>"
    by (rule finite_poseE)
  from assms(2) obtain x1 y1 r1 where
    p1: "s xy1 = \<lparr>x_pos = Finite x1, y_pos = Finite y1, orientation = Finite r1\<rparr>"
    by (rule finite_poseE)
  have "x_pos (snd (calculate_head_distance s xy0 xy1) xy0) = x_pos (s xy0)"
       "y_pos (snd (calculate_head_distance s xy0 xy1) xy0) = y_pos (s xy0)"
    using eq by simp_all
  then have "cos r0 = 0 \<and> sin r0 = 0"
  proof (cases "xy0 = xy1")
    case True
    assume "x_pos (snd (calculate_head_distance s xy0 xy1) xy0) = x_pos (s xy0)"
      "y_pos (snd (calculate_head_distance s xy0 xy1) xy0) = y_pos (s xy0)"
    moreover from True p0 have
      "s xy1 = \<lparr>x_pos = Finite x0, y_pos = Finite y0, orientation = Finite r0\<rparr>"
      by simp
    ultimately show ?thesis using True
      by (simp add: calculate_head_distance_def Let_def)
  next
    case False
    assume "x_pos (snd (calculate_head_distance s xy0 xy1) xy0) = x_pos (s xy0)"
      "y_pos (snd (calculate_head_distance s xy0 xy1) xy0) = y_pos (s xy0)"
    with False show ?thesis
      by (simp add: calculate_head_distance_def Let_def p0 p1)
  qed
  then show False using sin_cos_squared_add [of r0] by simp
qed

theorem calculate_head_distance_moves_witness:
  "finite_pose (example_store 0) \<and> finite_pose (example_store 1)
   \<and> snd (calculate_head_distance example_store 0 1) 0 \<noteq> example_store 0"
proof -
  have fin: "finite_pose (example_store 0)" "finite_pose (example_store 1)"
    by (simp_all add: example_store_def finite_pose_def)
  from calculate_head_distance_moves [OF fin] fin show ?thesis by blast
qed

text \<open>
  C10 (the code departs from it). The claim is that scoring leaves its input poses
  unchanged. \<open>head0 = xy0[:2]\<close> is a view, so the two \<open>+=\<close> of \<open>calculate_head_distance\<close>
  write the head position into the caller's array. For the poses (0, 0, 0) and (10, 0, 0)
  the call, and the score that makes it, leave (3.19, 0, 0) and (13.19, 0, 0) behind.
\<close>

theorem scoring_overwrites_input_poses:
  "example_store 0 = \<lparr>x_pos = Finite 0, y_pos = Finite 0, orientation = Finite 0\<rparr>
   \<and> example_store 1 = \<lparr>x_pos = Finite 10, y_pos = Finite 0, orientation = Finite 0\<rparr>
   \<and> snd (calculate_head_distance example_store 0 1) 0
       = \<lparr>x_pos = Finite 3.19, y_pos = Finite 0, orientation = Finite 0\<rparr>
   \<and> snd (calculate_head_distance example_store 0 1) 1
       = \<lparr>x_pos = Finite 13.19, y_pos = Finite 0, orientation = Finite 0\<rparr>
   \<and> snd (probability_distance_fun example_store 0 1) 0
       = \<lparr>x_pos = Finite 3.19, y_pos = Finite 0, orientation = Finite 0\<rparr>
   \<and> snd (probability_distance_fun example_store 0 1) 1
       = \<lparr>x_pos = Finite 13.19, y_pos = Finite 0, orientation = Finite 0\<rparr>"
  by (simp add: example_score example_head_distance del: One_nat_def)
     (simp add: example_store_def)

section \<open>The batched variant\<close>

lemma vectorized_loop_ok:
  "\<forall>i \<in> set is. i < length xy1 \<Longrightarrow>
   \<exists>out' s'. vectorized_loop f32 xy0 xy1 is (out, s) = Inr (out', s')"
proof (induction "is" arbitrary: out s)
  case Nil
  then show ?case by simp
next
  case (Cons i "is")
  obtain p s1 where ps: "probability_distance_fun s (xy0 ! i) (xy1 ! i) = (p, s1)"
    by (cases "probability_distance_fun s (xy0 ! i) (xy1 ! i)")
  from Cons.prems have "i < length xy1" "\<forall>j \<in> set is. j < length xy1" by simp_all
  with Cons.IH [of "out[i := f32 p]" s1] ps show ?case by simp
qed

lemma vectorized_returns_none:
  "length xy0 = length xy1 \<Longrightarrow>
   \<exists>s'. probability_distance_fun_vectorized f32 s xy0 xy1 = Inr (None, s')"
proof -
  assume len: "length xy0 = length xy1"
  then have "\<forall>i \<in> set [0..<length xy0]. i < length xy1" by simp
  from vectorized_loop_ok [OF this, of f32 xy0 "replicate (length xy0) (Finite 0)" s]
  obtain out' s' where
    "vectorized_loop f32 xy0 xy1 [0..<length xy0] (replicate (length xy0) (Finite 0), s)
       = Inr (out', s')"
    by blast
  then show ?thesis
    by (simp add: probability_distance_fun_vectorized_def probability_distance_fun_vectorized_'_def)
qed

text \<open>
  C8 (the code departs from it). The claim is that the batched variant returns the
  sequence of the scalar scores. \<open>probability_distance_fun_vectorized_\<close> fills a local array
  and ends without a \<open>return\<close>, so the batched variant returns \<open>None\<close>: for the one pair of
  poses (0, 0, 0) and (10, 0, 0), whose scalar score is a number strictly above 0, the
  result is \<open>None\<close> (and the two rows are overwritten on the way).
\<close>

theorem batched_score_returns_none:
  "probability_distance_fun_vectorized f32 example_store [0] [1] =
     Inr (None, example_store(0 := \<lparr>x_pos = Finite 3.19, y_pos = Finite 0, orientation = Finite 0\<rparr>,
                              1 := \<lparr>x_pos = Finite 13.19, y_pos = Finite 0, orientation = Finite 0\<rparr>))
   \<and> fst (probability_distance_fun example_store 0 1) = Finite (1 / (1 + exp 5.21832499))"
  by (simp add: probability_distance_fun_vectorized_def probability_distance_fun_vectorized_'_def
      example_score del: One_nat_def)

section \<open>Subsampling the frames of a window\<close>

lemma filter_enumerate_every_third:
  "n mod 3 = 0 \<Longrightarrow>
   map snd (filter (\<lambda>(idx, f). idx mod 3 = 0) (enumerate n xs)) = every_third xs"
proof (induction xs arbitrary: n rule: every_third.induct)
  case (1 a b c rest)
  have "Suc (Suc (Suc n)) mod 3 = 0" using "1.prems" by presburger
  from "1.IH" [OF this] "1.prems" show ?case
    by (simp add: mod_Suc)
qed (simp_all add: mod_Suc)

lemma every_third_nth:
  "every_third xs = map (\<lambda>k. xs ! (3 * k)) [0..<(length xs + 2) div 3]"
proof (induction xs rule: every_third.induct)
  case (1 a b c rest)
  have len: "(length (a # b # c # rest) + 2) div 3 = Suc ((length rest + 2) div 3)"
    by simp
  have "map (\<lambda>k. (a # b # c # rest) ! (3 * k)) [0..<Suc ((length rest + 2) div 3)]
      = a # map (\<lambda>k. rest ! (3 * k)) [0..<(length rest + 2) div 3]"
    by (simp add: upt_conv_Cons map_Suc_upt [symmetric] del: upt_Suc)
  with 1 len show ?case by simp
qed simp_all

lemma ceil_third: "nat \<lceil>real n / 3\<rceil> = (n + 2) div 3"
proof -
  have "\<lceil>real n / 3\<rceil> = \<lceil>(of_int (int n) :: real) / of_int 3\<rceil>" by simp
  also have "\<dots> = - (- int n div 3)" by (rule ceiling_divide_eq_div)
  also have "\<dots> = (int n + 2) div 3" by presburger
  finally have "\<lceil>real n / 3\<rceil> = (int n + 2) div 3" .
  then show ?thesis by (simp add: nat_div_distrib nat_add_distrib)
qed

lemma iter_frames_to_filter_every_third:
  "get_frames env cam_id d d' = Inr all_frames \<Longrightarrow>
   iter_frames_to_filter env cam_id d d' = Inr (every_third all_frames)"
  by (simp add: iter_frames_to_filter_def filter_enumerate_every_third)

lemma process_window_submitted:
  "files st (dt_to_string env target_dir cam_id d d') = None \<Longrightarrow>
   iter_frames_to_filter env cam_id d d' = Inr tasks \<Longrightarrow>
   submitted (calls (fst (process_window env progress target_dir d d' cam_id st)))
     = submitted (calls st) @ tasks"
  by (simp add: process_window_def Let_def split: sum.splits prod.splits)

text \<open>
  C4. When the window has no archive yet and \<open>get_frames\<close> yields N frames, the tasks the
  sweep hands to the executor are the frames at the indices 0, 3, 6, ... of that sequence,
  in that order, and there are ceil(N/3) of them. They are what \<open>iter_frames_to_filter\<close>
  yields, and all of them are submitted before the first result is read.
\<close>

theorem sweep_submits_every_third_frame:
  assumes "files st (dt_to_string env target_dir cam_id d d') = None"
    and "get_frames env cam_id d d' = Inr all_frames"
  shows "iter_frames_to_filter env cam_id d d'
           = Inr (map (\<lambda>k. all_frames ! (3 * k)) [0..<nat \<lceil>real (length all_frames) / 3\<rceil>])
       \<and> submitted (calls (fst (process_window env progress target_dir d d' cam_id st)))
           = submitted (calls st)
             @ map (\<lambda>k. all_frames ! (3 * k)) [0..<nat \<lceil>real (length all_frames) / 3\<rceil>]
       \<and> length (map (\<lambda>k. all_frames ! (3 * k)) [0..<nat \<lceil>real (length all_frames) / 3\<rceil>])
           = nat \<lceil>real (length all_frames) / 3\<rceil>"
proof -
  let ?tasks = "map (\<lambda>k. all_frames ! (3 * k)) [0..<nat \<lceil>real (length all_frames) / 3\<rceil>]"
  have it: "iter_frames_to_filter env cam_id d d' = Inr ?tasks"
    using iter_frames_to_filter_every_third [OF assms(2)]
    by (simp add: every_third_nth ceil_third)
  have "submitted (calls (fst (process_window env progress target_dir d d' cam_id st)))
      = submitted (calls st) @ ?tasks"
    using assms(1) it by (rule process_window_submitted)
  with it show ?thesis by simp
qed

theorem sweep_submits_every_third_frame_witness:
  "files empty_state (dt_to_string example_env ''out'' 0 0 (timedelta_days 1)) = None
   \<and> get_frames example_env 0 0 (timedelta_days 1)
       = Inr [(0, 0, 0), (1, 1, 0), (2, 2, 0), (3, 3, 0)]
   \<and> iter_frames_to_filter example_env 0 0 (timedelta_days 1) = Inr [(0, 0, 0), (3, 3, 0)]
   \<and> submitted (calls (fst (process_window example_env Tqdm ''out'' 0 (timedelta_days 1) 0 empty_state)))
       = [(0, 0, 0), (3, 3, 0)]"
proof -
  have no_file: "files empty_state (dt_to_string example_env ''out'' 0 0 (timedelta_days 1)) = None"
    by (simp add: empty_state_def)
  have frames: "get_frames example_env 0 0 (timedelta_days 1)
       = Inr [(0, 0, 0), (1, 1, 0), (2, 2, 0), (3, 3, 0)]"
    by (simp add: example_env_def)
  have tasks: "[0..<2::nat] = [0, 1]"
    by (simp add: upt_conv_Cons)
  have "calls empty_state = []" by (simp add: empty_state_def)
  with sweep_submits_every_third_frame [OF no_file frames] no_file frames tasks
  show ?thesis by (simp add: ceil_third)
qed

section \<open>File names\<close>

lemma endswith_append [simp]: "endswith (s @ suf) suf"
  by (simp add: endswith_def)

lemma split_last_slash: "split_last (a @ CHR ''/'' # b) = split_last b"
proof -
  have "takeWhile (\<lambda>c. c \<noteq> CHR ''/'') (rev b @ CHR ''/'' # rev a)
      = takeWhile (\<lambda>c. c \<noteq> CHR ''/'') (rev b)"
    by (rule takeWhile_tail) simp
  then show ?thesis by (simp add: split_last_def)
qed

lemma split_last_subset: "set (split_last s) \<subseteq> set s"
  using set_takeWhileD [of _ "\<lambda>c. c \<noteq> CHR ''/''" "rev s"]
  by (auto simp: split_last_def)

lemma split_last_zip: "split_last (s @ ''.zip'') = split_last s @ ''.zip''"
  by (simp add: split_last_def)

lemma replace_Nil: "old \<noteq> [] \<Longrightarrow> replace old new [] = []"
  by (simp add: replace.simps)

lemma replace_skip:
  "old \<noteq> [] \<Longrightarrow> \<not> startswith (c # s) old \<Longrightarrow> replace old new (c # s) = c # replace old new s"
  by (subst replace.simps) simp

lemma replace_hit:
  "old \<noteq> [] \<Longrightarrow> replace old new (old @ s) = new @ replace old new s"
  by (subst replace.simps) (simp add: startswith_def)

lemma replace_zip_suffix:
  "CHR ''z'' \<notin> set a \<Longrightarrow> replace ''zip'' ''msgpack'' (a @ ''.zip'') = a @ ''.msgpack''"
proof (induction a)
  case Nil
  have "replace ''zip'' ''msgpack'' (CHR ''.'' # ''zip'') = CHR ''.'' # replace ''zip'' ''msgpack'' ''zip''"
    by (rule replace_skip) (simp_all add: startswith_def)
  moreover have "replace ''zip'' ''msgpack'' (''zip'' @ []) = ''msgpack'' @ replace ''zip'' ''msgpack'' []"
    by (rule replace_hit) simp
  ultimately show ?case by (simp add: replace_Nil)
next
  case (Cons c a)
  then have "c \<noteq> CHR ''z''" by auto
  then have "replace ''zip'' ''msgpack'' (c # (a @ ''.zip'')) = c # replace ''zip'' ''msgpack'' (a @ ''.zip'')"
    by (intro replace_skip) (simp_all add: startswith_def)
  with Cons show ?case by simp
qed

lemma replace_dotzip_suffix:
  "CHR ''z'' \<notin> set a \<Longrightarrow> replace ''.zip'' ''.msgpack'' (a @ ''.zip'') = a @ ''.msgpack''"
proof (induction a)
  case Nil
  have "replace ''.zip'' ''.msgpack'' (''.zip'' @ []) = ''.msgpack'' @ replace ''.zip'' ''.msgpack'' []"
    by (rule replace_hit) simp
  then show ?case by (simp add: replace_Nil)
next
  case (Cons c a)
  have "\<not> startswith (c # (a @ ''.zip'')) ''.zip''"
  proof (cases a)
    case Nil
    then show ?thesis by (simp add: startswith_def)
  next
    case (Cons c' a')
    with Cons.prems have "c' \<noteq> CHR ''z''" by auto
    with Cons show ?thesis by (simp add: startswith_def)
  qed
  then have "replace ''.zip'' ''.msgpack'' (c # (a @ ''.zip'')) = c # replace ''.zip'' ''.msgpack'' (a @ ''.zip'')"
    by (intro replace_skip) simp_all
  with Cons show ?case by simp
qed

lemma str_nat_digits: "set (str_nat n) \<subseteq> set ''0123456789''"
proof (induction n rule: str_nat.induct)
  case (1 n)
  show ?case
  proof (cases "n < 10")
    case True
    then have "''0123456789'' ! n \<in> set ''0123456789''"
      by (intro nth_mem) simp
    with True show ?thesis by (subst str_nat.simps) simp
  next
    case False
    have "''0123456789'' ! (n mod 10) \<in> set ''0123456789''"
      by (intro nth_mem) simp
    with False 1 show ?thesis by (subst str_nat.simps) simp
  qed
qed

lemma str_nat_no_z: "CHR ''z'' \<notin> set (str_nat n)"
  using str_nat_digits [of n] by auto

text \<open>The two names of the entry agree on the file names the sweep builds.\<close>

lemma entry_names_agree:
  assumes "CHR ''z'' \<notin> set (str_datetime env d)" "CHR ''z'' \<notin> set (str_datetime env d')"
  shows "replace ''zip'' ''msgpack'' (split_last (dt_to_string env target_dir cam d d'))
       = replace ''.zip'' ''.msgpack'' (split_last (dt_to_string env target_dir cam d d'))"
proof -
  let ?stem = "''prefilter.'' @ str_nat cam @ ''_'' @ str_datetime env d @ ''_'' @ str_datetime env d'"
  have path: "dt_to_string env target_dir cam d d' = (target_dir @ CHR ''/'' # ?stem) @ ''.zip''"
    by (simp add: dt_to_string_def)
  have leaf: "split_last (dt_to_string env target_dir cam d d') = split_last ?stem @ ''.zip''"
    unfolding path split_last_zip by (simp only: split_last_slash)
  have "CHR ''z'' \<notin> set ?stem"
    using assms str_nat_no_z [of cam] by simp
  then have nz: "CHR ''z'' \<notin> set (split_last ?stem)"
    using split_last_subset [of ?stem] by blast
  show ?thesis
    unfolding leaf replace_zip_suffix [OF nz] replace_dotzip_suffix [OF nz] ..
qed

lemma dt_to_string_endswith: "endswith (dt_to_string env target_dir cam d d') ''.zip''"
proof -
  have "dt_to_string env target_dir cam d d' =
     (target_dir @ ''/prefilter.'' @ str_nat cam @ ''_'' @ str_datetime env d
       @ ''_'' @ str_datetime env d') @ ''.zip''"
    by (simp add: dt_to_string_def)
  then show ?thesis by (simp only: endswith_append)
qed

section \<open>The archive round trip and the loader\<close>

lemma filter_unique_key:
  "distinct (map fst m) \<Longrightarrow> (k, v) \<in> set m \<Longrightarrow> filter (\<lambda>(fid, ts). fid = k) m = [(k, v)]"
proof (induction m)
  case Nil
  then show ?case by simp
next
  case (Cons a m)
  obtain k' v' where a: "a = (k', v')" by (cases a)
  show ?case
  proof (cases "k' = k")
    case True
    with Cons.prems a have "k \<notin> fst ` set m" by simp
    then have none: "filter (\<lambda>(fid, ts). fid = k) m = []"
      by (force simp: filter_empty_conv)
    from \<open>k \<notin> fst ` set m\<close> Cons.prems(2) a True have "v' = v"
      by force
    with a True none show ?thesis by simp
  next
    case False
    with Cons a show ?thesis by auto
  qed
qed

lemma core_columns_simp [simp]: "core_columns (f, a, b, ts, dt) = (f, a, b)"
  by (simp add: core_columns_def)

lemma merge_inner_neutral:
  assumes "distinct (map fst metadata)" "fst ` set data \<subseteq> fst ` set metadata"
  shows "map core_columns (merge_inner data metadata) = data"
  using assms(2)
proof (induction data)
  case Nil
  then show ?case by (simp add: merge_inner_def)
next
  case (Cons row data)
  obtain f a b where row: "row = (f, a, b)" by (cases row)
  from Cons.prems row obtain v where "(f, v) \<in> set metadata" by (auto simp: image_iff)
  from filter_unique_key [OF assms(1) this]
  have one: "filter (\<lambda>(fid, ts). fid = f) metadata = [(f, v)]" .
  from Cons have "map core_columns (merge_inner data metadata) = data"
    by simp
  with one row show ?case by (simp add: merge_inner_def)
qed

lemma unat_astype_uint16: "unat (astype_uint16 v) = unat v mod 65536"
proof -
  have "unat (ucast v :: 16 word) = take_bit 16 (unat v)"
    by (simp add: unsigned_ucast_eq)
  then show ?thesis by (simp add: astype_uint16_def take_bit_eq_mod)
qed

lemma uint16_round_trip:
  assumes "unat (v :: 64 word) < 65536"
  shows "(ucast (astype_uint16 v) :: 64 word) = v"
proof -
  have "(of_nat (unat (astype_uint16 v)) :: 64 word) = of_nat (unat v)"
    using assms by (simp only: unat_astype_uint16 mod_less)
  then show ?thesis by simp
qed

lemma archive_rows_wraps:
  "archive_rows data_df =
     map (\<lambda>(frame_id, bee_id0, bee_id1).
            (unat frame_id, unat bee_id0 mod 65536, unat bee_id1 mod 65536)) data_df"
  by (simp add: archive_rows_def unat_astype_uint16)

lemma archive_rows_back:
  "list_all bee_ids_fit data_df \<Longrightarrow>
   map (\<lambda>(a, b, c). (of_nat a, of_nat b, of_nat c)) (archive_rows data_df) = data_df"
  by (induction data_df) (auto simp: archive_rows_def uint16_round_trip bee_ids_fit_def)

lemma archive_rows_Nil [simp]: "archive_rows data_df = [] \<longleftrightarrow> data_df = []"
  by (simp add: archive_rows_def)

text \<open>
  C5 (amended). Take a table with at least one row, the archive path of a window whose
  two datetimes print without the letter z (as Python prints them, so that the writer and
  the loader name the entry alike), and metadata that holds every frame id of the table
  exactly once. Writing the table to that archive by the write path and loading the path
  back gives as many rows as the table has, in the same order, with the same \<open>frame_id\<close>
  and with each \<open>bee_id0\<close> and \<open>bee_id1\<close> reduced modulo 2^16. So a table whose bee ids are
  all below 2^16 comes back with the same rows.
\<close>

theorem archive_round_trip:
  assumes nonempty: "data_df \<noteq> []"
    and no_z: "CHR ''z'' \<notin> set (str_datetime env d)" "CHR ''z'' \<notin> set (str_datetime env d')"
    and meta: "get_frame_metadata env (unique (map fst data_df)) = Inr metadata"
      "distinct (map fst metadata)" "fst ` set data_df \<subseteq> fst ` set metadata"
  shows "\<exists>merged.
           load_processed_data env
             (files (write_archive (dt_to_string env target_dir cam d d') (archive_rows data_df) st))
             (Path (dt_to_string env target_dir cam d d')) = Inr (Some merged)
           \<and> length merged = length data_df
           \<and> map core_columns merged
               = map (\<lambda>(frame_id, bee_id0, bee_id1).
                        (frame_id, of_nat (unat bee_id0 mod 65536), of_nat (unat bee_id1 mod 65536)))
                   data_df
           \<and> (list_all bee_ids_fit data_df \<longrightarrow> map core_columns merged = data_df)"
proof -
  let ?p = "dt_to_string env target_dir cam d d'"
  let ?fs = "files (write_archive ?p (archive_rows data_df) st)"
  let ?wrap = "\<lambda>(frame_id :: 64 word, bee_id0 :: 64 word, bee_id1 :: 64 word).
      (frame_id, of_nat (unat bee_id0 mod 65536) :: 64 word,
       of_nat (unat bee_id1 mod 65536) :: 64 word)"
  let ?decode = "\<lambda>(a :: nat, b :: nat, c :: nat).
      (of_nat a :: 64 word, of_nat b :: 64 word, of_nat c :: 64 word)"
  have zip: "endswith ?p ''.zip''" by (rule dt_to_string_endswith)
  have archive: "?fs ?p = Some (ZipArchive [(replace ''zip'' ''msgpack'' (split_last ?p),
                                          msgpack_dump (archive_rows data_df))])"
    by (simp add: write_archive_def)
  have entry: "map_of [(replace ''zip'' ''msgpack'' (split_last ?p), msgpack_dump (archive_rows data_df))]
                 (replace ''.zip'' ''.msgpack'' (split_last ?p))
               = Some (msgpack_dump (archive_rows data_df))"
    using entry_names_agree [OF no_z, of target_dir cam] by simp
  have path: "load_processed_data env ?fs (Path ?p)
            = load_processed_data env ?fs (FileObject (msgpack_dump (archive_rows data_df)))"
    using zip archive entry by simp
  have restored: "map ?decode (archive_rows data_df) = map ?wrap data_df"
    by (induction data_df) (auto simp: archive_rows_def unat_astype_uint16)
  have ids: "map fst (map ?wrap data_df) = map fst data_df"
    by (induction data_df) auto
  have frame_ids: "get_frame_metadata env (unique (map fst (map ?wrap data_df))) = Inr metadata"
    using meta(1) by (simp only: ids)
  have "load_processed_data env ?fs (FileObject (msgpack_dump (archive_rows data_df)))
      = (case get_frame_metadata env (unique (map fst (map ?decode (archive_rows data_df)))) of
           Inl e \<Rightarrow> Inl e
         | Inr metadata \<Rightarrow>
             Inr (Some (merge_inner (map ?decode (archive_rows data_df)) metadata)))"
    using nonempty by (simp add: msgpack_dump_def Let_def del: map_map)
  then have loaded: "load_processed_data env ?fs (FileObject (msgpack_dump (archive_rows data_df)))
      = Inr (Some (merge_inner (map ?wrap data_df) metadata))"
    by (simp only: restored frame_ids sum.case)
  have "fst ` set (map ?wrap data_df) \<subseteq> fst ` set metadata"
    using meta(3) ids by (metis set_map)
  with meta(2) have cols: "map core_columns (merge_inner (map ?wrap data_df) metadata)
      = map ?wrap data_df"
    by (rule merge_inner_neutral)
  then have len: "length (merge_inner (map ?wrap data_df) metadata) = length data_df"
    by (metis length_map)
  have fit: "map ?wrap data_df = data_df" if "list_all bee_ids_fit data_df"
    using that by (induction data_df) (auto simp: bee_ids_fit_def)
  have loaded_path: "load_processed_data env ?fs (Path ?p)
      = Inr (Some (merge_inner (map ?wrap data_df) metadata))"
    using path loaded by (simp only:)
  show ?thesis
  proof (intro exI conjI impI)
    show "load_processed_data env ?fs (Path ?p)
        = Inr (Some (merge_inner (map ?wrap data_df) metadata))"
      by (rule loaded_path)
    show "length (merge_inner (map ?wrap data_df) metadata) = length data_df"
      by (rule len)
    show "map core_columns (merge_inner (map ?wrap data_df) metadata) = map ?wrap data_df"
      by (rule cols)
    show "map core_columns (merge_inner (map ?wrap data_df) metadata) = data_df"
      if "list_all bee_ids_fit data_df"
      using cols fit [OF that] by (simp only:)
  qed
qed

theorem archive_round_trip_witness:
  "[(1, 65537, 2), (7, 3, 4)] \<noteq> ([] :: table)
   \<and> CHR ''z'' \<notin> set (str_datetime example_env 0)
   \<and> CHR ''z'' \<notin> set (str_datetime example_env (timedelta_days 1))
   \<and> get_frame_metadata example_env (unique (map fst [(1, 65537, 2), (7, 3, 4)]))
       = Inr [(1, 0), (7, 0)]
   \<and> (\<exists>merged.
         load_processed_data example_env
           (files (write_archive (dt_to_string example_env ''out'' 0 0 (timedelta_days 1))
                     (archive_rows [(1, 65537, 2), (7, 3, 4)]) empty_state))
           (Path (dt_to_string example_env ''out'' 0 0 (timedelta_days 1))) = Inr (Some merged)
         \<and> length merged = 2
         \<and> map core_columns merged = [(1, 1, 2), (7, 3, 4)])"
proof -
  have h1: "[(1, 65537, 2), (7, 3, 4)] \<noteq> ([] :: table)" by simp
  have h3: "CHR ''z'' \<notin> set (str_datetime example_env 0)" by code_simp
  have h4: "CHR ''z'' \<notin> set (str_datetime example_env (timedelta_days 1))" by code_simp
  have h5: "get_frame_metadata example_env (unique (map fst [(1, 65537, 2), (7, 3, 4)]))
      = Inr [(1, 0), (7, 0)]"
    by code_simp
  have h6: "distinct (map fst [(1 :: 64 word, 0 :: real), (7, 0)])" by simp
  have h7: "fst ` set [(1 :: 64 word, 65537 :: 64 word, 2 :: 64 word), (7, 3, 4)]
      \<subseteq> fst ` set [(1 :: 64 word, 0 :: real), (7, 0)]" by simp
  from archive_round_trip [OF h1 h3 h4 h5 h6 h7, of "''out''" 0 empty_state]
  obtain merged where
    "load_processed_data example_env
       (files (write_archive (dt_to_string example_env ''out'' 0 0 (timedelta_days 1))
                 (archive_rows [(1, 65537, 2), (7, 3, 4)]) empty_state))
       (Path (dt_to_string example_env ''out'' 0 0 (timedelta_days 1))) = Inr (Some merged)"
    "length merged = length [(1 :: 64 word, 65537 :: 64 word, 2 :: 64 word), (7, 3, 4)]"
    "map core_columns merged
       = map (\<lambda>(frame_id, bee_id0, bee_id1).
                (frame_id, of_nat (unat bee_id0 mod 65536), of_nat (unat bee_id1 mod 65536)))
           [(1 :: 64 word, 65537 :: 64 word, 2 :: 64 word), (7, 3, 4)]"
    by blast
  then have "load_processed_data example_env
       (files (write_archive (dt_to_string example_env ''out'' 0 0 (timedelta_days 1))
                 (archive_rows [(1, 65537, 2), (7, 3, 4)]) empty_state))
       (Path (dt_to_string example_env ''out'' 0 0 (timedelta_days 1))) = Inr (Some merged)
     \<and> length merged = 2
     \<and> map core_columns merged = [(1, 1, 2), (7, 3, 4)]"
    by simp
  then have "\<exists>merged. load_processed_data example_env
       (files (write_archive (dt_to_string example_env ''out'' 0 0 (timedelta_days 1))
                 (archive_rows [(1, 65537, 2), (7, 3, 4)]) empty_state))
       (Path (dt_to_string example_env ''out'' 0 0 (timedelta_days 1))) = Inr (Some merged)
     \<and> length merged = 2
     \<and> map core_columns merged = [(1, 1, 2), (7, 3, 4)]"
    by (rule exI)
  with h1 h3 h4 h5 show ?thesis by (simp only: simp_thms)
qed

text \<open>
  C5 as stated fails on a table with a bee id that needs more than 16 bits: the row
  (1, 65536, 2) comes back as (1, 0, 2).
\<close>

theorem wide_bee_id_does_not_round_trip:
  "load_processed_data example_env
     (files (write_archive (dt_to_string example_env ''out'' 0 0 (timedelta_days 1))
               (archive_rows [(1, 65536, 2)]) empty_state))
     (Path (dt_to_string example_env ''out'' 0 0 (timedelta_days 1)))
   = Inr (Some [(1, 0, 2, 0, 0)])
   \<and> map core_columns [(1, 0, 2, 0, 0)] \<noteq> [(1, 65536, 2)]"
  by code_simp

text \<open>
  C9. A payload that msgpack decodes to an empty sequence, or fails to decode, makes the
  loader return \<open>None\<close>: neither an empty table nor an exception. This holds for an open
  file object, for the entry of a zip archive and for a \<open>.msgpack\<close> file.
\<close>

theorem load_empty_or_corrupt_is_none:
  assumes "msgpack_load payload = Inr (RowList []) \<or> (\<exists>e. msgpack_load payload = Inl e)"
  shows "load_processed_data env fs (FileObject payload) = Inr None
       \<and> (endswith f ''.zip'' \<and> fs f = Some (ZipArchive entries)
            \<and> map_of entries (replace ''.zip'' ''.msgpack'' (split_last f)) = Some payload
          \<longrightarrow> load_processed_data env fs (Path f) = Inr None)
       \<and> (\<not> endswith f ''.zip'' \<and> endswith f ''.msgpack'' \<and> fs f = Some (Regular payload)
          \<longrightarrow> load_processed_data env fs (Path f) = Inr None)"
proof -
  have "load_processed_data env fs (FileObject payload) = Inr None"
    using assms by auto
  then show ?thesis by (simp add: read_bytes_def)
qed

theorem load_empty_or_corrupt_is_none_witness:
  "msgpack_load (Msgpack (RowList [])) = Inr (RowList [])
   \<and> load_processed_data example_env Map.empty (FileObject (Msgpack (RowList []))) = Inr None
   \<and> msgpack_load OtherBytes = Inl UnpackException
   \<and> load_processed_data example_env Map.empty (FileObject OtherBytes) = Inr None
   \<and> endswith ''out/a.zip'' ''.zip''
   \<and> load_processed_data example_env
        [''out/a.zip'' \<mapsto> ZipArchive [(''a.msgpack'', OtherBytes)]] (Path ''out/a.zip'') = Inr None
   \<and> endswith ''out/a.msgpack'' ''.msgpack''
   \<and> load_processed_data example_env
        [''out/a.msgpack'' \<mapsto> Regular (Msgpack (RowList []))] (Path ''out/a.msgpack'') = Inr None"
proof -
  have empty: "msgpack_load (Msgpack (RowList [])) = Inr (RowList [])
      \<or> (\<exists>e. msgpack_load (Msgpack (RowList [])) = Inl e)"
    by simp
  have corrupt: "msgpack_load OtherBytes = Inr (RowList [])
      \<or> (\<exists>e. msgpack_load OtherBytes = Inl e)"
    by simp
  have z: "endswith ''out/a.zip'' ''.zip''" by code_simp
  have zn: "replace ''.zip'' ''.msgpack'' (split_last ''out/a.zip'') = ''a.msgpack''" by code_simp
  have m: "endswith ''out/a.msgpack'' ''.msgpack''" by code_simp
  have mz: "\<not> endswith ''out/a.msgpack'' ''.zip''" by code_simp
  from load_empty_or_corrupt_is_none [OF empty, of example_env Map.empty]
  have a: "load_processed_data example_env Map.empty (FileObject (Msgpack (RowList []))) = Inr None"
    by blast
  from load_empty_or_corrupt_is_none [OF corrupt, of example_env Map.empty]
  have b: "load_processed_data example_env Map.empty (FileObject OtherBytes) = Inr None"
    by blast
  from load_empty_or_corrupt_is_none [OF corrupt, of example_env
      "[''out/a.zip'' \<mapsto> ZipArchive [(''a.msgpack'', OtherBytes)]]" "''out/a.zip''"
      "[(''a.msgpack'', OtherBytes)]"] z zn
  have c: "load_processed_data example_env
        [''out/a.zip'' \<mapsto> ZipArchive [(''a.msgpack'', OtherBytes)]] (Path ''out/a.zip'') = Inr None"
    by simp
  from load_empty_or_corrupt_is_none [OF empty, of example_env
      "[''out/a.msgpack'' \<mapsto> Regular (Msgpack (RowList []))]" "''out/a.msgpack''"] m mz
  have d: "load_processed_data example_env
        [''out/a.msgpack'' \<mapsto> Regular (Msgpack (RowList []))] (Path ''out/a.msgpack'') = Inr None"
    by simp
  from a b c d z m show ?thesis by simp
qed

section \<open>Persisting a window\<close>

lemma save_data_Identity [simp]: "save_data Identity acc result = Inl AttributeError"
  by (simp add: save_data_def split: prod.splits)

lemma executor_map_save_Identity:
  "executor_map_save env Identity tasks acc = Inr x \<Longrightarrow> tasks = [] \<and> x = acc"
  by (cases tasks) (auto split: sum.splits)

lemma process_window_archives:
  assumes "progress \<noteq> Identity"
    and "files st (dt_to_string env target_dir cam d d') = None"
    and "window_results env progress (d, d', cam) = Inr (res, failed)"
    and "res \<noteq> []"
  shows "snd (process_window env progress target_dir d d' cam st) = None
       \<and> files (fst (process_window env progress target_dir d d' cam st))
            (dt_to_string env target_dir cam d d')
           = Some (ZipArchive
               [(replace ''zip'' ''msgpack'' (split_last (dt_to_string env target_dir cam d d')),
                 Msgpack (RowList (archive_rows (concat (map snd res)))))])"
  using assms
  by (auto simp: process_window_def window_results_def Let_def write_archive_def msgpack_dump_def
      split: sum.splits)

text \<open>
  C6 (amended). When the sweep runs with a progress bar (\<open>progress\<close> is \<open>"tqdm"\<close>, the
  default, or \<open>"tqdm_notebook"\<close>), a window that has no archive yet, whose tasks all return
  and give at least one candidate table, is persisted without an exception: the cast of
  the bee ids to unsigned 16 bits does not raise, and the archive is written with every
  bee id reduced modulo 2^16 (a bee id inside the range stands unchanged) and every frame
  id unchanged.
\<close>

theorem bee_id_cast_wraps_and_archive_is_written:
  assumes "progress \<noteq> Identity"
    and "files st (dt_to_string env target_dir cam d d') = None"
    and "window_results env progress (d, d', cam) = Inr (res, failed)"
    and "res \<noteq> []"
  shows "snd (process_window env progress target_dir d d' cam st) = None
       \<and> files (fst (process_window env progress target_dir d d' cam st))
            (dt_to_string env target_dir cam d d')
           = Some (ZipArchive
               [(replace ''zip'' ''msgpack'' (split_last (dt_to_string env target_dir cam d d')),
                 Msgpack (RowList
                   (map (\<lambda>(frame_id, bee_id0, bee_id1).
                           (unat frame_id, unat bee_id0 mod 65536, unat bee_id1 mod 65536))
                      (concat (map snd res)))))])"
  using process_window_archives [OF assms] by (simp only: archive_rows_wraps)

lemma example_window_results:
  "window_results example_env Tqdm (0, timedelta_days 1, 0)
     = Inr ([((0, 0, 0), [(0, 65536, 2)])], [(3, 3, 0)])"
  by code_simp

theorem bee_id_cast_wraps_and_archive_is_written_witness:
  "Tqdm \<noteq> Identity
   \<and> files empty_state (dt_to_string example_env ''out'' 0 0 (timedelta_days 1)) = None
   \<and> window_results example_env Tqdm (0, timedelta_days 1, 0)
       = Inr ([((0, 0, 0), [(0, 65536, 2)])], [(3, 3, 0)])
   \<and> snd (process_window example_env Tqdm ''out'' 0 (timedelta_days 1) 0 empty_state) = None
   \<and> files (fst (process_window example_env Tqdm ''out'' 0 (timedelta_days 1) 0 empty_state))
        (dt_to_string example_env ''out'' 0 0 (timedelta_days 1))
       = Some (ZipArchive [(''prefilter.0_0_1.msgpack'', Msgpack (RowList [(0, 0, 2)]))])"
proof -
  have h0: "Tqdm \<noteq> Identity" by simp
  have h1: "files empty_state (dt_to_string example_env ''out'' 0 0 (timedelta_days 1)) = None"
    by (simp add: empty_state_def)
  have h3: "[((0 :: nat, 0 :: real, 0 :: nat), [(0 :: 64 word, 65536 :: 64 word, 2 :: 64 word)])] \<noteq> []"
    by simp
  have name: "replace ''zip'' ''msgpack''
       (split_last (dt_to_string example_env ''out'' 0 0 (timedelta_days 1)))
     = ''prefilter.0_0_1.msgpack''"
    by code_simp
  from bee_id_cast_wraps_and_archive_is_written [OF h0 h1 example_window_results h3]
    h1 example_window_results name
  show ?thesis by simp
qed

text \<open>
  C6 as stated fails: the fetch answers a bee id of 65536 for frame 0, the window is
  persisted without any exception (the sweep runs with its default progress bar), and the
  archive holds the bee id 0.
\<close>

theorem wide_bee_id_is_truncated_silently:
  "resolve_progress (Some ''tqdm'') = Some Tqdm
   \<and> find_interactions_in_frame example_env 0 2.0 high_recall_threshold = Inr [(0, 65536, 2)]
   \<and> snd (process_window example_env Tqdm ''out'' 0 (timedelta_days 1) 0 empty_state) = None
   \<and> files (fst (process_window example_env Tqdm ''out'' 0 (timedelta_days 1) 0 empty_state))
        ''out/prefilter.0_0_1.zip''
       = Some (ZipArchive [(''prefilter.0_0_1.msgpack'', Msgpack (RowList [(0, 0, 2)]))])"
  by code_simp

text \<open>
  Without a progress bar (\<open>progress=None\<close>) the bar of the results is \<open>None\<close>: a window
  without an archive whose first task returns raises \<open>AttributeError\<close> in \<open>save_data\<close>, and
  nothing is written.
\<close>

theorem window_without_progress_bar_raises:
  assumes "files st (dt_to_string env target_dir cam d d') = None"
    and "iter_frames_to_filter env cam d d' = Inr (task # tasks)"
    and "process_frame_with_prefilter env task = Inr result"
  shows "snd (process_window env Identity target_dir d d' cam st) = Some AttributeError
       \<and> files (fst (process_window env Identity target_dir d d' cam st)) = files st"
  using assms by (simp add: process_window_def Let_def)

theorem window_without_progress_bar_raises_witness:
  "files empty_state (dt_to_string example_env ''out'' 0 0 (timedelta_days 1)) = None
   \<and> iter_frames_to_filter example_env 0 0 (timedelta_days 1) = Inr [(0, 0, 0), (3, 3, 0)]
   \<and> process_frame_with_prefilter example_env (0, 0, 0) = Inr (0, 0, 0, [(0, 65536, 2)])
   \<and> resolve_progress None = Some Identity
   \<and> snd (process_window example_env Identity ''out'' 0 (timedelta_days 1) 0 empty_state)
       = Some AttributeError
   \<and> files (fst (process_window example_env Identity ''out'' 0 (timedelta_days 1) 0 empty_state))
       = files empty_state"
proof -
  have h1: "files empty_state (dt_to_string example_env ''out'' 0 0 (timedelta_days 1)) = None"
    by (simp add: empty_state_def)
  have h2: "iter_frames_to_filter example_env 0 0 (timedelta_days 1) = Inr [(0, 0, 0), (3, 3, 0)]"
    by code_simp
  have h3: "process_frame_with_prefilter example_env (0, 0, 0) = Inr (0, 0, 0, [(0, 65536, 2)])"
    by code_simp
  have h4: "resolve_progress None = Some Identity"
    by (simp add: resolve_progress_def)
  from window_without_progress_bar_raises [OF h1 h2 h3] h1 h2 h3 h4 show ?thesis by simp
qed

section \<open>The loops of the sweep as a list of windows\<close>

lemma run_windows_append:
  "run_windows env progress td (ws @ ws') st =
     (case run_windows env progress td ws st of
        (st', Some e) \<Rightarrow> (st', Some e)
      | (st', None) \<Rightarrow> run_windows env progress td ws' st')"
  by (induction ws arbitrary: st) (auto split: prod.splits option.splits)

lemma cam_loop_run_windows:
  "cam_loop env progress td d d' cams st = run_windows env progress td (map (\<lambda>cam_id. (d, d', cam_id)) cams) st"
  by (induction cams arbitrary: st) (auto split: prod.splits option.splits)

lemma day_loop_run_windows:
  "day_loop env progress td current_day_start dt_to st
     = run_windows env progress td (day_windows current_day_start dt_to) st"
proof (induction env progress td current_day_start dt_to st rule: day_loop.induct)
  case (1 env progress td current_day_start dt_to st)
  show ?case
  proof (cases "current_day_start > dt_to")
    case True
    then show ?thesis
      by (subst day_loop.simps, subst day_windows.simps) simp
  next
    case False
    show ?thesis
      using False "1.IH"
      by (subst day_loop.simps, subst day_windows.simps)
         (auto simp: Let_def run_windows_append cam_loop_run_windows
               split: prod.splits option.splits)
  qed
qed

lemma prefilter_run_windows:
  "resolve_progress progress = Some p \<Longrightarrow>
   prefilter_data_for_timerange env dt_from dt_to target_dir progress fs
     = run_windows env p (the_target_dir target_dir) (day_windows dt_from dt_to)
         \<lparr>files = fs, skipped = 0, calls = []\<rparr>"
  by (simp add: prefilter_data_for_timerange_def day_loop_run_windows)

lemma prefilter_uncallable_progress:
  "resolve_progress progress = None \<Longrightarrow>
   prefilter_data_for_timerange env dt_from dt_to target_dir progress fs
     = (\<lparr>files = fs, skipped = 0, calls = []\<rparr>, Some TypeError)"
  by (simp add: prefilter_data_for_timerange_def)

section \<open>One window\<close>

lemma enumerates_only_missing_refl: "enumerates_only_missing env td D cs cs"
  by (simp add: enumerates_only_missing_def)

lemma enumerates_only_missing_trans:
  "enumerates_only_missing env td D cs0 cs1 \<Longrightarrow> enumerates_only_missing env td D cs1 cs2 \<Longrightarrow>
   enumerates_only_missing env td D cs0 cs2"
  unfolding enumerates_only_missing_def by blast

text \<open>What one window does, by the state it starts from.\<close>

lemma process_window_probed:
  "probed (calls (fst (process_window env progress td d d' cam st)))
     = probed (calls st) @ [dt_to_string env td cam d d']"
  by (simp add: process_window_def Let_def split: sum.splits prod.splits)

lemma process_window_dom_mono:
  "dom (files st) \<subseteq> dom (files (fst (process_window env progress td d d' cam st)))"
  by (auto simp: process_window_def Let_def split: sum.splits prod.splits)

lemma process_window_settles:
  "snd (process_window env progress td d d' cam st) = None \<Longrightarrow>
   settled env progress td (dom (files (fst (process_window env progress td d d' cam st)))) (d, d', cam)"
  by (auto simp: process_window_def Let_def settled_def window_path_def window_results_def
      split: sum.splits prod.splits if_splits)

lemma process_window_raises:
  "snd (process_window env progress td d d' cam st) = Some e \<Longrightarrow>
   files (fst (process_window env progress td d d' cam st)) = files st
   \<and> files st (dt_to_string env td cam d d') = None
   \<and> window_results env progress (d, d', cam) = Inl e"
  by (auto simp: process_window_def Let_def window_results_def
      dest: executor_map_save_Identity split: sum.splits prod.splits if_splits)

lemma process_window_settled:
  assumes "settled env progress td (dom (files st)) (d, d', cam)"
  shows "snd (process_window env progress td d d' cam st) = None
       \<and> dom (files (fst (process_window env progress td d d' cam st))) = dom (files st)
       \<and> archive_writes (calls (fst (process_window env progress td d d' cam st)))
           = archive_writes (calls st)
       \<and> enumerates_only_missing env td (dom (files st)) (calls st)
             (calls (fst (process_window env progress td d d' cam st)))"
  using assms
  by (auto simp: process_window_def Let_def settled_def window_path_def window_results_def
      enumerates_only_missing_def split: sum.splits prod.splits if_splits)

lemma process_window_raises_again:
  assumes "files st (dt_to_string env td cam d d') = None"
    and "window_results env progress (d, d', cam) = Inl e"
  shows "snd (process_window env progress td d d' cam st) = Some e
       \<and> files (fst (process_window env progress td d d' cam st)) = files st
       \<and> archive_writes (calls (fst (process_window env progress td d d' cam st)))
           = archive_writes (calls st)
       \<and> enumerates_only_missing env td (dom (files st)) (calls st)
             (calls (fst (process_window env progress td d d' cam st)))"
  using assms
  by (auto simp: process_window_def Let_def window_results_def enumerates_only_missing_def
      split: sum.splits prod.splits if_splits)

lemma settled_mono: "D \<subseteq> D' \<Longrightarrow> settled env progress td D w \<Longrightarrow> settled env progress td D' w"
  by (auto simp: settled_def split: sum.splits prod.splits)

section \<open>Running the sweep again\<close>

lemma run_windows_dom_mono:
  "dom (files st) \<subseteq> dom (files (fst (run_windows env progress td ws st)))"
proof (induction ws arbitrary: st)
  case Nil
  then show ?case by simp
next
  case (Cons w ws)
  obtain d d' cam where w: "w = (d, d', cam)" by (cases w)
  obtain st' r where pw: "process_window env progress td d d' cam st = (st', r)"
    by (cases "process_window env progress td d d' cam st")
  have mono: "dom (files st) \<subseteq> dom (files st')"
    using process_window_dom_mono [of st env progress td d d' cam] pw by simp
  show ?case
  proof (cases r)
    case None
    with Cons.IH [of st'] mono w pw show ?thesis by auto
  next
    case (Some e)
    with mono w pw show ?thesis by simp
  qed
qed

lemma first_run_settles:
  assumes "run_windows env progress td ws st = (st1, r1)"
  shows "case r1 of
           None \<Rightarrow> list_all (settled env progress td (dom (files st1))) ws
         | Some e \<Rightarrow>
             (\<exists>ws1 w ws2. ws = ws1 @ w # ws2
                \<and> list_all (settled env progress td (dom (files st1))) ws1
                \<and> files st1 (window_path env td w) = None
                \<and> window_results env progress w = Inl e)"
  using assms
proof (induction ws arbitrary: st)
  case Nil
  then show ?case by simp
next
  case (Cons w ws)
  obtain d d' cam where w: "w = (d, d', cam)" by (cases w)
  obtain st' r where pw: "process_window env progress td d d' cam st = (st', r)"
    by (cases "process_window env progress td d d' cam st")
  show ?case
  proof (cases r)
    case (Some e)
    with Cons.prems w pw have eq: "st1 = st'" "r1 = Some e" by simp_all
    from process_window_raises [of env progress td d d' cam st e] pw Some
    have "files st' = files st" "files st (dt_to_string env td cam d d') = None"
      "window_results env progress (d, d', cam) = Inl e"
      by simp_all
    then have "w # ws = [] @ w # ws \<and> list_all (settled env progress td (dom (files st1))) []
        \<and> files st1 (window_path env td w) = None \<and> window_results env progress w = Inl e"
      using eq w by (simp add: window_path_def)
    then show ?thesis unfolding eq by (simp only: option.case) blast
  next
    case None
    with Cons.prems w pw have rest: "run_windows env progress td ws st' = (st1, r1)" by simp
    from process_window_settles [of env progress td d d' cam st] pw None
    have "settled env progress td (dom (files st')) w" by (simp add: w)
    moreover have "dom (files st') \<subseteq> dom (files st1)"
      using run_windows_dom_mono [of st' env progress td ws] rest by simp
    ultimately have sw: "settled env progress td (dom (files st1)) w" by (rule settled_mono [rotated])
    from Cons.IH [OF rest] show ?thesis
    proof (cases r1)
      case None
      with Cons.IH [OF rest] sw show ?thesis by simp
    next
      case (Some e)
      with Cons.IH [OF rest] obtain ws1 v ws2 where
        "ws = ws1 @ v # ws2" "list_all (settled env progress td (dom (files st1))) ws1"
        "files st1 (window_path env td v) = None" "window_results env progress v = Inl e"
        by auto
      with sw have "w # ws = (w # ws1) @ v # ws2
          \<and> list_all (settled env progress td (dom (files st1))) (w # ws1)
          \<and> files st1 (window_path env td v) = None \<and> window_results env progress v = Inl e"
        by simp
      then show ?thesis unfolding Some by (simp only: option.case) blast
    qed
  qed
qed

lemma rerun_settled:
  assumes "list_all (settled env progress td (dom (files st))) ws"
  shows "snd (run_windows env progress td ws st) = None
       \<and> dom (files (fst (run_windows env progress td ws st))) = dom (files st)
       \<and> archive_writes (calls (fst (run_windows env progress td ws st))) = archive_writes (calls st)
       \<and> enumerates_only_missing env td (dom (files st)) (calls st)
             (calls (fst (run_windows env progress td ws st)))"
  using assms
proof (induction ws arbitrary: st)
  case Nil
  then show ?case by (simp add: enumerates_only_missing_refl)
next
  case (Cons w ws)
  obtain d d' cam where w: "w = (d, d', cam)" by (cases w)
  obtain st' r where pw: "process_window env progress td d d' cam st = (st', r)"
    by (cases "process_window env progress td d d' cam st")
  from Cons.prems w have "settled env progress td (dom (files st)) (d, d', cam)" by simp
  from process_window_settled [OF this] pw
  have step: "r = None" "dom (files st') = dom (files st)"
    "archive_writes (calls st') = archive_writes (calls st)"
    "enumerates_only_missing env td (dom (files st)) (calls st) (calls st')"
    by simp_all
  from Cons.prems step(2) have "list_all (settled env progress td (dom (files st'))) ws" by simp
  from Cons.IH [OF this] step w pw show ?case
    by (auto intro: enumerates_only_missing_trans)
qed

lemma rerun_raises:
  assumes "list_all (settled env progress td (dom (files st))) ws1"
    and "files st (window_path env td w) = None"
    and "window_results env progress w = Inl e"
  shows "snd (run_windows env progress td (ws1 @ w # ws2) st) = Some e
       \<and> dom (files (fst (run_windows env progress td (ws1 @ w # ws2) st))) = dom (files st)
       \<and> archive_writes (calls (fst (run_windows env progress td (ws1 @ w # ws2) st)))
           = archive_writes (calls st)
       \<and> enumerates_only_missing env td (dom (files st)) (calls st)
             (calls (fst (run_windows env progress td (ws1 @ w # ws2) st)))"
proof -
  obtain d d' cam where w: "w = (d, d', cam)" by (cases w)
  obtain st' where r1: "run_windows env progress td ws1 st = (st', None)"
    using rerun_settled [OF assms(1)] by (cases "run_windows env progress td ws1 st") auto
  from rerun_settled [OF assms(1)] r1
  have pre: "dom (files st') = dom (files st)"
    "archive_writes (calls st') = archive_writes (calls st)"
    "enumerates_only_missing env td (dom (files st)) (calls st) (calls st')"
    by simp_all
  have "files st' (dt_to_string env td cam d d') = None"
    using assms(2) pre(1) w by (auto simp: window_path_def domIff)
  from process_window_raises_again [OF this] assms(3) w
  have step: "snd (process_window env progress td d d' cam st') = Some e"
    "files (fst (process_window env progress td d d' cam st')) = files st'"
    "archive_writes (calls (fst (process_window env progress td d d' cam st'))) = archive_writes (calls st')"
    "enumerates_only_missing env td (dom (files st')) (calls st')
       (calls (fst (process_window env progress td d d' cam st')))"
    by simp_all
  obtain st'' where pw: "process_window env progress td d d' cam st' = (st'', Some e)"
    using step(1) by (cases "process_window env progress td d d' cam st'") auto
  have run: "run_windows env progress td (ws1 @ w # ws2) st = (st'', Some e)"
    by (simp add: run_windows_append r1 w pw)
  from step pw pre show ?thesis unfolding run
    by (auto intro: enumerates_only_missing_trans)
qed

text \<open>
  C3. A second sweep over the same range, with the same answers of the collaborators and
  the file system the first sweep left, writes no archive and creates no file, and it
  ends as the first one did. It calls \<open>get_frames\<close> only for windows whose archive does not
  exist: a window whose archive exists is skipped on the \<open>os.path.isfile\<close> check, before
  any frame is enumerated or scored, and a window without results again writes no archive.
\<close>

theorem second_sweep_writes_no_archive:
  assumes first: "prefilter_data_for_timerange env dt_from dt_to target_dir progress fs = (st1, r1)"
    and second: "prefilter_data_for_timerange env dt_from dt_to target_dir progress (files st1) = (st2, r2)"
  shows "archive_writes (calls st2) = []
       \<and> dom (files st2) = dom (files st1)
       \<and> r2 = r1
       \<and> (\<forall>cam d d'. GetFrames cam d d' \<in> set (calls st2)
             \<longrightarrow> files st1 (dt_to_string env (the_target_dir target_dir) cam d d') = None)"
proof (cases "resolve_progress progress")
  case None
  from first second show ?thesis
    by (auto simp: prefilter_uncallable_progress [OF None])
next
  case (Some p)
  let ?td = "the_target_dir target_dir"
  let ?ws = "day_windows dt_from dt_to"
  let ?start = "\<lparr>files = files st1, skipped = 0, calls = []\<rparr>"
  have run1: "run_windows env p ?td ?ws \<lparr>files = fs, skipped = 0, calls = []\<rparr> = (st1, r1)"
    using first by (simp add: prefilter_run_windows [OF Some])
  have run2: "run_windows env p ?td ?ws ?start = (st2, r2)"
    using second by (simp add: prefilter_run_windows [OF Some])
  have "snd (run_windows env p ?td ?ws ?start) = r1
      \<and> dom (files (fst (run_windows env p ?td ?ws ?start))) = dom (files ?start)
      \<and> archive_writes (calls (fst (run_windows env p ?td ?ws ?start))) = archive_writes (calls ?start)
      \<and> enumerates_only_missing env ?td (dom (files ?start)) (calls ?start)
            (calls (fst (run_windows env p ?td ?ws ?start)))"
  proof (cases r1)
    case None
    with first_run_settles [OF run1]
    have "list_all (settled env p ?td (dom (files ?start))) ?ws" by simp
    from rerun_settled [OF this] None show ?thesis by simp
  next
    case raised: (Some e)
    with first_run_settles [OF run1] obtain ws1 w ws2 where
      split: "?ws = ws1 @ w # ws2"
      and "list_all (settled env p ?td (dom (files st1))) ws1"
      and "files st1 (window_path env ?td w) = None"
      and "window_results env p w = Inl e"
      by auto
    then have "list_all (settled env p ?td (dom (files ?start))) ws1"
      "files ?start (window_path env ?td w) = None" "window_results env p w = Inl e"
      by simp_all
    from rerun_raises [OF this, of ws2] raised show ?thesis
      unfolding split by simp
  qed
  with run2 have "r2 = r1" "dom (files st2) = dom (files st1)" "archive_writes (calls st2) = []"
    "enumerates_only_missing env ?td (dom (files st1)) [] (calls st2)"
    by simp_all
  then show ?thesis
    by (auto simp: enumerates_only_missing_def)
qed

lemma example_first_run_archives:
  "archive_writes (calls (fst (prefilter_data_for_timerange example_env 0 0 (Some ''out'') (Some ''tqdm'') Map.empty)))
     = [''out/prefilter.0_0_1.zip'']"
  by code_simp

lemma example_second_run_calls:
  "calls (fst (prefilter_data_for_timerange example_env 0 0 (Some ''out'') (Some ''tqdm'')
       (files (fst (prefilter_data_for_timerange example_env 0 0 (Some ''out'') (Some ''tqdm'') Map.empty)))))
   = [IsFile ''out/prefilter.0_0_1.zip'',
      IsFile ''out/prefilter.1_0_1.zip'', GetFrames 1 0 (timedelta_days 1),
      Submit (0, 10, 1), Submit (3, 13, 1), OpenWrite ''out/prefilter.1_0_1.zip.failed.cloudpickle'',
      IsFile ''out/prefilter.2_0_1.zip'', GetFrames 2 0 (timedelta_days 1),
      Submit (0, 20, 2), Submit (3, 23, 2), OpenWrite ''out/prefilter.2_0_1.zip.failed.cloudpickle'',
      IsFile ''out/prefilter.3_0_1.zip'', GetFrames 3 0 (timedelta_days 1),
      Submit (0, 30, 3), Submit (3, 33, 3), OpenWrite ''out/prefilter.3_0_1.zip.failed.cloudpickle'']"
  by code_simp

theorem second_sweep_writes_no_archive_witness:
  "archive_writes
      (calls (fst (prefilter_data_for_timerange example_env 0 0 (Some ''out'') (Some ''tqdm'') Map.empty)))
     = [''out/prefilter.0_0_1.zip'']
   \<and> archive_writes
      (calls (fst (prefilter_data_for_timerange example_env 0 0 (Some ''out'') (Some ''tqdm'')
         (files (fst (prefilter_data_for_timerange example_env 0 0 (Some ''out'') (Some ''tqdm'') Map.empty))))))
     = []
   \<and> dom (files (fst (prefilter_data_for_timerange example_env 0 0 (Some ''out'') (Some ''tqdm'')
         (files (fst (prefilter_data_for_timerange example_env 0 0 (Some ''out'') (Some ''tqdm'') Map.empty))))))
     = dom (files (fst (prefilter_data_for_timerange example_env 0 0 (Some ''out'') (Some ''tqdm'') Map.empty)))
   \<and> GetFrames 1 0 (timedelta_days 1)
       \<in> set (calls (fst (prefilter_data_for_timerange example_env 0 0 (Some ''out'') (Some ''tqdm'')
         (files (fst (prefilter_data_for_timerange example_env 0 0 (Some ''out'') (Some ''tqdm'') Map.empty))))))
   \<and> files (fst (prefilter_data_for_timerange example_env 0 0 (Some ''out'') (Some ''tqdm'') Map.empty))
        (dt_to_string example_env (the_target_dir (Some ''out'')) 1 0 (timedelta_days 1)) = None"
proof -
  let ?run1 = "prefilter_data_for_timerange example_env 0 0 (Some ''out'') (Some ''tqdm'') Map.empty"
  let ?run2 = "prefilter_data_for_timerange example_env 0 0 (Some ''out'') (Some ''tqdm'')
      (files (fst ?run1))"
  have first: "?run1 = (fst ?run1, snd ?run1)" by simp
  have second: "?run2 = (fst ?run2, snd ?run2)" by simp
  have enumerated: "GetFrames 1 0 (timedelta_days 1) \<in> set (calls (fst ?run2))"
    by (simp add: example_second_run_calls)
  from second_sweep_writes_no_archive [OF first second] enumerated example_first_run_archives
  show ?thesis by blast
qed

section \<open>The range of days\<close>

text \<open>
  C7 (the code departs from it). The claim is that the sweep treats its range as half
  open and visits (to - from) days times four cameras. The loop stops only when the day
  start is greater than \<open>dt_to\<close>, so it also visits the day that starts at \<open>dt_to\<close>: from
  day 0 to day 1 it probes eight windows, the last four of them starting at day 1, and
  writes an archive for the window of camera 0 that starts at day 1.
\<close>

theorem sweep_visits_the_end_date:
  "probed (calls (fst (prefilter_data_for_timerange example_env 0 (timedelta_days 1)
                         (Some ''out'') (Some ''tqdm'') Map.empty)))
     = [''out/prefilter.0_0_1.zip'', ''out/prefilter.1_0_1.zip'',
        ''out/prefilter.2_0_1.zip'', ''out/prefilter.3_0_1.zip'',
        ''out/prefilter.0_1_2.zip'', ''out/prefilter.1_1_2.zip'',
        ''out/prefilter.2_1_2.zip'', ''out/prefilter.3_1_2.zip'']
   \<and> archive_writes (calls (fst (prefilter_data_for_timerange example_env 0 (timedelta_days 1)
                         (Some ''out'') (Some ''tqdm'') Map.empty)))
     = [''out/prefilter.0_0_1.zip'', ''out/prefilter.0_1_2.zip'']
   \<and> str_datetime example_env (timedelta_days 1) = ''1''
   \<and> (timedelta_days 1 - 0) div timedelta_days 1 = 1"
  by code_simp

lemma run_windows_probed:
  "snd (run_windows env progress td ws st) = None \<Longrightarrow>
   probed (calls (fst (run_windows env progress td ws st)))
     = probed (calls st) @ map (window_path env td) ws"
proof (induction ws arbitrary: st)
  case Nil
  then show ?case by simp
next
  case (Cons w ws)
  obtain d d' cam where w: "w = (d, d', cam)" by (cases w)
  obtain st' r where pw: "process_window env progress td d d' cam st = (st', r)"
    by (cases "process_window env progress td d d' cam st")
  from Cons.prems w pw have r: "r = None" by (cases r) simp_all
  with Cons.prems w pw have "snd (run_windows env progress td ws st') = None" by simp
  from Cons.IH [OF this] process_window_probed [of env progress td d d' cam st] w pw r
  show ?case by (simp add: window_path_def)
qed

lemma day_windows_from_end: "day_windows dt_to dt_to
   = map (\<lambda>cam_id. (dt_to, dt_to + timedelta_days 1, cam_id)) [0..<4]"
  by (subst day_windows.simps, subst day_windows.simps) (simp add: timedelta_days_def)

lemma day_windows_days:
  "day_windows dt_from (dt_from + timedelta_days (int n))
     = concat (map (\<lambda>k. map (\<lambda>cam_id. (dt_from + timedelta_days (int k),
                                          dt_from + timedelta_days (int k + 1), cam_id)) [0..<4])
                 [0..<Suc n])"
proof (induction n arbitrary: dt_from)
  case 0
  have "day_windows dt_from (dt_from + timedelta_days 0) = day_windows dt_from dt_from"
    by (simp add: timedelta_days_def)
  then show ?case by (simp add: day_windows_from_end timedelta_days_def)
next
  case (Suc n)
  let ?next = "dt_from + timedelta_days 1"
  have shift: "dt_from + timedelta_days (int (Suc n)) = ?next + timedelta_days (int n)"
    by (simp add: timedelta_days_def algebra_simps)
  have unfold: "day_windows dt_from (dt_from + timedelta_days (int (Suc n)))
      = map (\<lambda>cam_id. (dt_from, ?next, cam_id)) [0..<4]
        @ day_windows ?next (?next + timedelta_days (int n))"
    by (subst day_windows.simps) (simp add: timedelta_days_def algebra_simps)
  have k: "?next + timedelta_days (int k) = dt_from + timedelta_days (int (Suc k))"
      "?next + timedelta_days (int k + 1) = dt_from + timedelta_days (int (Suc k) + 1)" for k
    by (simp_all add: timedelta_days_def algebra_simps)
  have "[0..<Suc (Suc n)] = 0 # map Suc [0..<Suc n]"
    by (simp only: map_Suc_upt upt_conv_Cons [of 0 "Suc (Suc n)"])
  then show ?case
    unfolding unfold Suc.IH [of ?next]
    by (simp add: comp_def timedelta_days_def algebra_simps del: upt_Suc)
qed

text \<open>
  In general: a sweep from a day to the day n days later that raises nothing probes the
  windows of n + 1 days, the last of which starts at the end date.
\<close>

theorem sweep_probes_closed_range:
  assumes "snd (prefilter_data_for_timerange env dt_from (dt_from + timedelta_days (int n))
                  target_dir progress fs) = None"
  shows "probed (calls (fst (prefilter_data_for_timerange env dt_from
                               (dt_from + timedelta_days (int n)) target_dir progress fs)))
       = concat (map (\<lambda>k. map (\<lambda>cam_id. dt_to_string env (the_target_dir target_dir) cam_id
                                   (dt_from + timedelta_days (int k))
                                   (dt_from + timedelta_days (int k + 1))) [0..<4])
                   [0..<Suc n])
       \<and> length (probed (calls (fst (prefilter_data_for_timerange env dt_from
                               (dt_from + timedelta_days (int n)) target_dir progress fs))))
           = 4 * (n + 1)"
proof -
  let ?run = "prefilter_data_for_timerange env dt_from (dt_from + timedelta_days (int n)) target_dir progress fs"
  let ?paths = "concat (map (\<lambda>k. map (\<lambda>cam_id. dt_to_string env (the_target_dir target_dir) cam_id
                                   (dt_from + timedelta_days (int k))
                                   (dt_from + timedelta_days (int k + 1))) [0..<4])
                   [0..<Suc n])"
  from assms obtain p where p: "resolve_progress progress = Some p"
    by (cases "resolve_progress progress") (simp_all add: prefilter_uncallable_progress)
  have "probed (calls (fst ?run))
      = map (window_path env (the_target_dir target_dir))
          (day_windows dt_from (dt_from + timedelta_days (int n)))"
    using assms run_windows_probed [of env p "the_target_dir target_dir"
        "day_windows dt_from (dt_from + timedelta_days (int n))"
        "\<lparr>files = fs, skipped = 0, calls = []\<rparr>"]
    by (simp add: prefilter_run_windows [OF p])
  also have "\<dots> = ?paths"
    unfolding day_windows_days
    by (simp add: map_concat comp_def window_path_def del: upt_Suc)
  finally have eq: "probed (calls (fst ?run)) = ?paths" .
  have "length ?paths = 4 * (n + 1)"
    by (simp add: length_concat comp_def sum_list_triv del: upt_Suc)
  with eq show ?thesis by simp
qed

theorem sweep_probes_closed_range_witness:
  "snd (prefilter_data_for_timerange example_env 0 (0 + timedelta_days (int 1))
          (Some ''out'') (Some ''tqdm'') Map.empty) = None
   \<and> length (probed (calls (fst (prefilter_data_for_timerange example_env 0
                               (0 + timedelta_days (int 1)) (Some ''out'') (Some ''tqdm'') Map.empty)))) = 8"
proof -
  have ok: "snd (prefilter_data_for_timerange example_env 0 (0 + timedelta_days (int 1))
          (Some ''out'') (Some ''tqdm'') Map.empty) = None"
    by code_simp
  from sweep_probes_closed_range [OF ok] ok show ?thesis by simp
qed

end
